theory Spec2Isabelle
  imports Main "HOL-Library.Multiset"
begin

text \<open>
  The extraction engine of Readme2Landing: \<open>parseReadme\<close> and the extractors it calls, as
  they stand in \<^verbatim>\<open>src/lib/types.ts\<close> (the revision with the section orderer, the hero
  image, the statistics, the technology stack and the testimonials). Every function keeps
  the name it has in the source. A visitor passed to \<open>visit\<close> becomes a function from
  its variables and a node to the new values of the variables, folded over the nodes in the
  order of the traversal; a loop with \<open>break\<close> becomes a recursive function.
\<close>

section \<open>Strings\<close>

text \<open>
  A JavaScript string is a sequence of UTF-16 code units. It is modelled as a \<open>string\<close>
  (a \<open>char list\<close>); one \<open>char\<close> stands for one code unit, so \<open>length\<close> is the
  \<open>.length\<close> of the source. HOL characters have eight bits: the model covers the code units
  below 256 (ASCII and Latin-1). Case mapping and the white space class are the ECMAScript
  ones, restricted to that range.
\<close>

definition isSpace :: "char \<Rightarrow> bool" where
  "isSpace c = (c \<in> set [CHR 0x09, CHR 0x0A, CHR 0x0B, CHR 0x0C, CHR 0x0D, CHR 0x20, CHR 0xA0])"

definition isDigit :: "char \<Rightarrow> bool" where
  "isDigit c = (c \<in> set ''0123456789'')"

definition isUpper :: "char \<Rightarrow> bool" where
  "isUpper c = (c \<in> set ''ABCDEFGHIJKLMNOPQRSTUVWXYZ'')"

definition isLower :: "char \<Rightarrow> bool" where
  "isLower c = (c \<in> set ''abcdefghijklmnopqrstuvwxyz'')"

definition isAlpha :: "char \<Rightarrow> bool" where
  "isAlpha c = (isLower c \<or> isUpper c)"

definition isWordChar :: "char \<Rightarrow> bool" where
  "isWordChar c = (isAlpha c \<or> isDigit c \<or> c = CHR ''_'')"

definition toLowerChar :: "char \<Rightarrow> char" where
  "toLowerChar c = (let n = (of_char c :: nat) in
     if (65 \<le> n \<and> n \<le> 90) \<or> (192 \<le> n \<and> n \<le> 222 \<and> n \<noteq> 215)
     then char_of (n + 32) else c)"

definition toLowerCase :: "string \<Rightarrow> string" where
  "toLowerCase s = map toLowerChar s"

definition trim :: "string \<Rightarrow> string" where
  "trim s = rev (dropWhile isSpace (rev (dropWhile isSpace s)))"

fun startsWith :: "string \<Rightarrow> string \<Rightarrow> bool" where
  "startsWith s [] = True"
| "startsWith [] (k # ks) = False"
| "startsWith (c # s) (k # ks) = (c = k \<and> startsWith s ks)"

fun includesStr :: "string \<Rightarrow> string \<Rightarrow> bool" where
  "includesStr [] k = (k = [])"
| "includesStr (c # s) k = (startsWith (c # s) k \<or> includesStr s k)"

section \<open>The document tree\<close>

text \<open>
  The parser is an external library; its output is the typed node tree below. \<open>OtherParent\<close>
  and \<open>OtherLeaf\<close> stand for the node types the extractors never test for (tables, inline
  code, thematic breaks, raw HTML, ...), with and without a \<open>children\<close> property.
\<close>

datatype node =
    Root "node list"
  | Heading nat "node list"
  | Paragraph "node list"
  | Text string
  | Strong "node list"
  | Emphasis "node list"
  | Link string "node list"
  | Image string "string option"
  | Code "string option" string
  | Blockquote "node list"
  | List "node list"
  | ListItem "node list"
  | OtherParent "node list"
  | OtherLeaf

fun children :: "node \<Rightarrow> node list" where
  "children (Root cs) = cs"
| "children (Heading d cs) = cs"
| "children (Paragraph cs) = cs"
| "children (Text v) = []"
| "children (Strong cs) = cs"
| "children (Emphasis cs) = cs"
| "children (Link url cs) = cs"
| "children (Image url alt) = []"
| "children (Code lang v) = []"
| "children (Blockquote cs) = cs"
| "children (List cs) = cs"
| "children (ListItem cs) = cs"
| "children (OtherParent cs) = cs"
| "children OtherLeaf = []"

text \<open>\<open>visit(tree, fn)\<close> calls \<open>fn\<close> on every node of the tree, depth first, parents before
  children: \<open>visit n\<close> is the list of the nodes in that order. A visitor with a type test
  sees the sublist of the nodes of that type.\<close>

function visit :: "node \<Rightarrow> node list" where
  "visit n = n # concat (map visit (children n))"
  by pat_completeness auto
termination
proof (relation "measure size")
  fix n c :: node
  assume "c \<in> set (children n)"
  then show "(c, n) \<in> measure size"
    by (cases n) (auto simp: less_Suc_eq_le dest: size_list_estimation')
qed simp

declare visit.simps [simp del]

function extractTextFromNode :: "node \<Rightarrow> string" where
  "extractTextFromNode n =
     (case n of Text v \<Rightarrow> v
      | _ \<Rightarrow> concat (map extractTextFromNode (children n)))"
  by pat_completeness auto
termination
  by (relation "measure size") (auto simp: less_Suc_eq_le dest: size_list_estimation')

declare extractTextFromNode.simps [simp del]

definition isHeading1 :: "node \<Rightarrow> bool" where
  "isHeading1 n = (case n of Heading d cs \<Rightarrow> d = 1 | _ \<Rightarrow> False)"

definition isParagraph :: "node \<Rightarrow> bool" where
  "isParagraph n = (case n of Paragraph cs \<Rightarrow> True | _ \<Rightarrow> False)"

definition isImage :: "node \<Rightarrow> bool" where
  "isImage n = (case n of Image url alt \<Rightarrow> True | _ \<Rightarrow> False)"

section \<open>Tagline\<close>

text \<open>The loop of \<open>extractTagline\<close> over the top-level nodes, with its three variables;
  a \<open>break\<close> returns the tagline at once.\<close>

fun taglineLoop :: "node list \<Rightarrow> string \<Rightarrow> bool \<Rightarrow> nat \<Rightarrow> string" where
  "taglineLoop [] tagline foundH1 paragraphCount = tagline"
| "taglineLoop (node # rest) tagline foundH1 paragraphCount =
     (if isHeading1 node then taglineLoop rest tagline True paragraphCount
      else if foundH1 then
        (case node of
           Paragraph cs \<Rightarrow>
             (let text = trim (extractTextFromNode node) in
              if text \<noteq> [] then
                (if paragraphCount + 1 = 1 \<and> length text < 200 then text
                 else if tagline = [] \<and> length text < 200
                   then taglineLoop rest text foundH1 (paragraphCount + 1)
                   else taglineLoop rest tagline foundH1 (paragraphCount + 1))
              else taglineLoop rest tagline foundH1 paragraphCount)
         | Heading d cs \<Rightarrow>
             (if d \<ge> 2 then (if tagline = [] then tagline
                              else taglineLoop rest tagline foundH1 paragraphCount)
              else taglineLoop rest tagline foundH1 paragraphCount)
         | _ \<Rightarrow> taglineLoop rest tagline foundH1 paragraphCount)
      else taglineLoop rest tagline foundH1 paragraphCount)"

text \<open>The fallback visitor over every paragraph of the document.\<close>

definition taglineVisitor :: "string \<Rightarrow> node \<Rightarrow> string" where
  "taglineVisitor tagline node =
     (if tagline = [] then
        (let text = trim (extractTextFromNode node) in
         if text \<noteq> [] \<and> length text < 200 then text else tagline)
      else tagline)"

text \<open>The tagline selected by the two scans, before truncation and default.\<close>

definition selectTagline :: "node \<Rightarrow> string" where
  "selectTagline ast =
     (let tagline = taglineLoop (children ast) [] False 0 in
      if tagline = [] then foldl taglineVisitor tagline (filter isParagraph (visit ast))
      else tagline)"

definition taglinePlaceholder :: string where
  "taglinePlaceholder = ''A great project that solves real problems.''"

definition extractTagline :: "node \<Rightarrow> string" where
  "extractTagline ast =
     (let tagline = selectTagline ast;
          tagline = (if length tagline > 160 then take 157 tagline @ ''...'' else tagline)
      in if tagline = [] then taglinePlaceholder else tagline)"

section \<open>Hero image\<close>

record heroImage =
  hero_url :: string
  hero_alt :: string

text \<open>The visitor of \<open>extractHeroImage\<close> is called on every node; its state is the image
  found so far (\<open>null\<close> is \<open>None\<close>) and the flag \<open>foundH1\<close>.\<close>

definition heroVisitor :: "node option \<times> bool \<Rightarrow> node \<Rightarrow> node option \<times> bool" where
  "heroVisitor st node =
     (case st of (heroImage, foundH1) \<Rightarrow>
        if isHeading1 node then (heroImage, True)
        else if foundH1 \<and> heroImage = None \<and> isImage node then
          (case node of
             Image u a \<Rightarrow>
               (let alt = toLowerCase (case a of None \<Rightarrow> [] | Some t \<Rightarrow> t) in
                if includesStr alt ''screenshot'' \<or> includesStr alt ''demo''
                   \<or> includesStr alt ''preview'' \<or> includesStr alt ''logo''
                   \<or> includesStr alt ''hero'' \<or> includesStr alt ''banner''
                then (Some node, foundH1)
                else if heroImage = None then (Some node, foundH1)
                else (heroImage, foundH1))
           | _ \<Rightarrow> (heroImage, foundH1))
        else (heroImage, foundH1))"

definition extractHeroImage :: "node \<Rightarrow> heroImage option" where
  "extractHeroImage ast =
     (case fst (foldl heroVisitor (None, False) (visit ast)) of
        Some (Image u a) \<Rightarrow>
          if u \<noteq> [] then
            Some \<lparr>hero_url = u,
                  hero_alt = (case a of None \<Rightarrow> ''Hero image''
                         | Some t \<Rightarrow> if t \<noteq> [] then t else ''Hero image'')\<rparr>
          else None
      | _ \<Rightarrow> None)"

text \<open>The first image node after the first depth-1 heading, in the order of the traversal.\<close>

definition firstImageAfterH1 :: "node \<Rightarrow> node option" where
  "firstImageAfterH1 ast =
     (case filter isImage (dropWhile (\<lambda>n. \<not> isHeading1 n) (visit ast)) of
        [] \<Rightarrow> None
      | img # rest \<Rightarrow> Some img)"

section \<open>Statistics\<close>

record stat =
  stat_label :: string
  stat_value :: string

text \<open>
  One attempt of the pattern \<open>(\d+[kKmMbB]?\+?)\s+(\w+)\<close> at the start of a string: the
  captured value, the captured label and the text after the match. Each quantifier is
  greedy, and every shorter choice leaves a character that the next item cannot match (a
  digit, the suffix letter or the plus sign is neither white space nor the start of what
  follows), so the greedy choice is the only way the pattern can match at a position.
\<close>

definition statMatchAt :: "string \<Rightarrow> (string \<times> string \<times> string) option" where
  "statMatchAt s =
     (let digits = takeWhile isDigit s; r1 = dropWhile isDigit s in
      if digits = [] then None
      else
        let suffix = (case r1 of c # t \<Rightarrow> if c \<in> set ''kKmMbB'' then [c] else [] | [] \<Rightarrow> []);
            r2 = drop (length suffix) r1;
            plus = (case r2 of c # t \<Rightarrow> if c = CHR ''+'' then [c] else [] | [] \<Rightarrow> []);
            r3 = drop (length plus) r2;
            r4 = dropWhile isSpace r3
        in if takeWhile isSpace r3 = [] then None
           else
             let word = takeWhile isWordChar r4 in
             if word = [] then None
             else Some (digits @ suffix @ plus, word, dropWhile isWordChar r4))"

text \<open>\<open>text.matchAll(statPattern)\<close>: the matches from left to right, each search starting
  where the previous match ended.\<close>

function matchAllStat :: "string \<Rightarrow> (string \<times> string) list" where
  "matchAllStat [] = []"
| "matchAllStat (c # s) =
     (case statMatchAt (c # s) of
        Some (v, l, rest) \<Rightarrow> (v, l) # matchAllStat rest
      | None \<Rightarrow> matchAllStat s)"
  by pat_completeness auto
termination
proof -
  have dw: "length (dropWhile P zs) \<le> length zs" for P and zs :: string
    by (induction zs) auto
  have shorter: "length rest < length s" if m: "statMatchAt s = Some (v, l, rest)"
    for s v l rest
  proof -
    define r1 where "r1 = dropWhile isDigit s"
    from m have nonempty: "takeWhile isDigit s \<noteq> []"
      unfolding statMatchAt_def Let_def by (auto split: if_splits)
    have "length (takeWhile isDigit s) + length r1 = length s"
      unfolding r1_def by (metis length_append takeWhile_dropWhile_id)
    with nonempty have r1: "length r1 < length s"
      by (cases "takeWhile isDigit s") auto
    from m have "\<exists>i j. rest = dropWhile isWordChar (dropWhile isSpace (drop i (drop j r1)))"
      unfolding statMatchAt_def Let_def r1_def by (auto split: if_splits)
    then obtain i j
      where "rest = dropWhile isWordChar (dropWhile isSpace (drop i (drop j r1)))"
      by blast
    then have "length rest \<le> length r1"
      using dw [of isWordChar "dropWhile isSpace (drop i (drop j r1))"]
            dw [of isSpace "drop i (drop j r1)"]
      by simp
    with r1 show ?thesis by simp
  qed
  show ?thesis
    by (relation "measure length") (auto dest: shorter)
qed

definition isListItem :: "node \<Rightarrow> bool" where
  "isListItem n = (case n of ListItem cs \<Rightarrow> True | _ \<Rightarrow> False)"

text \<open>The body of both visitors of \<open>extractStats\<close>: every match is pushed while fewer than
  four pairs have been collected.\<close>

definition statsVisitor :: "stat list \<Rightarrow> node \<Rightarrow> stat list" where
  "statsVisitor stats node =
     foldl (\<lambda>stats m. case m of (v, l) \<Rightarrow>
              if length stats < 4 then stats @ [\<lparr>stat_label = l, stat_value = v\<rparr>] else stats)
       stats (matchAllStat (extractTextFromNode node))"

definition extractStats :: "node \<Rightarrow> stat list option" where
  "extractStats ast =
     (let stats = foldl statsVisitor [] (filter isParagraph (visit ast));
          stats = foldl statsVisitor stats (filter isListItem (visit ast))
      in if length stats > 0 then Some (take 4 stats) else None)"

text \<open>The pairs that the pattern yields in the text of one node.\<close>

definition statPairs :: "node \<Rightarrow> stat list" where
  "statPairs node =
     map (\<lambda>m. case m of (v, l) \<Rightarrow> \<lparr>stat_label = l, stat_value = v\<rparr>)
       (matchAllStat (extractTextFromNode node))"

section \<open>Links\<close>

record link =
  label :: string
  href :: string

definition isLink :: "node \<Rightarrow> bool" where
  "isLink n = (case n of Link u cs \<Rightarrow> True | _ \<Rightarrow> False)"

definition linksVisitor :: "link list \<Rightarrow> node \<Rightarrow> link list" where
  "linksVisitor links node =
     (case node of
        Link u cs \<Rightarrow>
          (let label = extractTextFromNode node in
           if u \<noteq> [] \<and> label \<noteq> [] then links @ [\<lparr>label = label, href = u\<rparr>] else links)
      | _ \<Rightarrow> links)"

definition extractLinks :: "node \<Rightarrow> link list" where
  "extractLinks ast = foldl linksVisitor [] (filter isLink (visit ast))"

section \<open>Sections\<close>

text \<open>
  A value read from a JavaScript object is not always a string, whatever the declared type
  says: \<open>JObject\<close> stands for a value that is an object or a function, on which a string
  method such as \<open>toLowerCase\<close> does not exist.
\<close>

datatype jsvalue = JString string | JObject

record pageSection =
  sec_id :: string
  sec_title :: jsvalue
  sec_content :: string

definition sectionMap :: "(string \<times> string) list" where
  "sectionMap =
     [(''usage'', ''How it works''),
      (''quickstart'', ''How it works''),
      (''getting started'', ''How it works''),
      (''how it works'', ''How it works''),
      (''installation'', ''Install''),
      (''setup'', ''Install''),
      (''quick start'', ''Quick Start''),
      (''project structure'', ''Project Structure''),
      (''idea categories'', ''Idea Categories''),
      (''tech stack'', ''Tech Stack''),
      (''configuration'', ''Configuration''),
      (''options'', ''Configuration''),
      (''roadmap'', ''Roadmap''),
      (''todo'', ''Roadmap''),
      (''contributing'', ''Contributing''),
      (''license'', ''License''),
      (''faq'', ''FAQ''),
      (''connect'', ''Connect''),
      (''live demo'', ''Live Demo''),
      (''acknowledgments'', ''Acknowledgments'')]"

text \<open>
  \<open>sectionMap[key]\<close> reads a property of an object literal. The literal inherits from
  \<open>Object.prototype\<close>, so a key that is not one of its own is looked up there. The key is
  lower-cased text; the inherited properties with such a name are \<open>constructor\<close> (the
  function \<open>Object\<close>) and \<open>__proto__\<close> (the prototype object), both truthy and neither
  a string. Every other key yields \<open>undefined\<close>, here \<open>None\<close>.
\<close>

definition sectionMapGet :: "string \<Rightarrow> jsvalue option" where
  "sectionMapGet key =
     (case map_of sectionMap key of
        Some v \<Rightarrow> Some (JString v)
      | None \<Rightarrow> if key = ''constructor'' \<or> key = ''__proto__'' then Some JObject else None)"

text \<open>
  The character class of the two \<open>replace\<close> calls on the heading text, as the source file
  spells it; these are its members below 256.
\<close>

definition glyphClass :: "char list" where
  "glyphClass = [CHR 0xE2, CHR 0xA8, CHR 0xF0, CHR 0xAF, CHR 0xA1, CHR 0xA0, CHR 0xEF, CHR 0xB8]"

definition stripGlyphs :: "string \<Rightarrow> string" where
  "stripGlyphs s = filter (\<lambda>c. c \<notin> set glyphClass) s"

text \<open>\<open>replace(/\s+/g, '-')\<close>: every maximal run of white space becomes one hyphen.\<close>

function replaceSpaces :: "string \<Rightarrow> string" where
  "replaceSpaces [] = []"
| "replaceSpaces (c # s) =
     (if isSpace c then CHR ''-'' # replaceSpaces (dropWhile isSpace s)
      else c # replaceSpaces s)"
  by pat_completeness auto
termination
  by (relation "measure length") (auto simp: less_Suc_eq_le length_dropWhile_le)

definition isSlugChar :: "char \<Rightarrow> bool" where
  "isSlugChar c = (isLower c \<or> isDigit c \<or> c = CHR ''-'')"

fun joinWith :: "string \<Rightarrow> string list \<Rightarrow> string" where
  "joinWith sep [] = []"
| "joinWith sep [x] = x"
| "joinWith sep (x # y # ys) = x @ sep @ joinWith sep (y # ys)"

definition nodeToString :: "node \<Rightarrow> string" where
  "nodeToString node =
     (case node of
        Text v \<Rightarrow> v
      | Paragraph cs \<Rightarrow> extractTextFromNode node
      | Code lang v \<Rightarrow>
          ''```'' @ (case lang of None \<Rightarrow> [] | Some l \<Rightarrow> l) @ [CHR 0x0A] @ v @ [CHR 0x0A] @ ''```''
      | List cs \<Rightarrow> concat (map (\<lambda>item. ''- '' @ extractTextFromNode item @ [CHR 0x0A]) cs)
      | Blockquote cs \<Rightarrow> ''> '' @ extractTextFromNode node
      | Heading d cs \<Rightarrow> replicate d CHR ''#'' @ '' '' @ extractTextFromNode node
      | _ \<Rightarrow> extractTextFromNode node)"

definition isSectionHeading :: "node \<Rightarrow> bool" where
  "isSectionHeading n = (case n of Heading d cs \<Rightarrow> d \<ge> 2 | _ \<Rightarrow> False)"

text \<open>Saving the section in progress: it is pushed when its reconstructed markdown is not
  blank.\<close>

definition saveSection :: "pageSection list \<Rightarrow> pageSection option \<Rightarrow> node list \<Rightarrow> pageSection list" where
  "saveSection sections currentSection contentNodes =
     (case currentSection of
        None \<Rightarrow> sections
      | Some cur \<Rightarrow>
          (let markdown = joinWith [CHR 0x0A, CHR 0x0A] (map nodeToString contentNodes) in
           if trim markdown \<noteq> [] then sections @ [cur\<lparr>sec_content := trim markdown\<rparr>]
           else sections))"

definition startSection :: "node \<Rightarrow> pageSection" where
  "startSection node =
     (let headingText = extractTextFromNode node;
          headingTextLower = trim (stripGlyphs (toLowerCase headingText));
          mappedTitle = (case sectionMapGet headingTextLower of
                           Some v \<Rightarrow> v
                         | None \<Rightarrow> JString (trim (stripGlyphs headingText)))
      in \<lparr>sec_id = filter isSlugChar (replaceSpaces headingTextLower),
          sec_title = mappedTitle,
          sec_content = []\<rparr>)"

text \<open>The loop of \<open>extractSections\<close> over the top-level nodes; its state is the list of
  finished sections, the section in progress, its content nodes and the skip flag.\<close>

fun sectionsLoop ::
  "node list \<Rightarrow> pageSection list \<Rightarrow> pageSection option \<Rightarrow> node list \<Rightarrow> bool
   \<Rightarrow> pageSection list \<times> pageSection option \<times> node list" where
  "sectionsLoop [] sections currentSection contentNodes skipUntilFirstH2 =
     (sections, currentSection, contentNodes)"
| "sectionsLoop (node # rest) sections currentSection contentNodes skipUntilFirstH2 =
     (if skipUntilFirstH2 \<and> \<not> isSectionHeading node
      then sectionsLoop rest sections currentSection contentNodes skipUntilFirstH2
      else if isSectionHeading node
      then sectionsLoop rest (saveSection sections currentSection contentNodes)
             (Some (startSection node)) [] False
      else if currentSection \<noteq> None
      then sectionsLoop rest sections currentSection (contentNodes @ [node]) False
      else sectionsLoop rest sections currentSection contentNodes False)"

definition extractSections :: "node \<Rightarrow> pageSection list" where
  "extractSections ast =
     (case sectionsLoop (children ast) [] None [] True of
        (sections, currentSection, contentNodes) \<Rightarrow>
          saveSection sections currentSection contentNodes)"

section \<open>Call to action\<close>

datatype error = TypeError

definition demoKeywords :: "string list" where
  "demoKeywords = [''demo'', ''live'', ''try'', ''website'', ''playground'', ''app'', ''deploy'']"

definition hasDemoKeyword :: "link \<Rightarrow> bool" where
  "hasDemoKeyword l =
     (let lowerLabel = toLowerCase (label l); lowerHref = toLowerCase (href l) in
      list_ex (\<lambda>keyword. includesStr lowerLabel keyword \<or> includesStr lowerHref keyword)
        demoKeywords)"

definition isDemoLink :: "link \<Rightarrow> bool" where
  "isDemoLink l = (hasDemoKeyword l \<and> \<not> startsWith (href l) ''#'' \<and> href l \<noteq> ''#'')"

text \<open>The test for an installation section. It calls \<open>toLowerCase\<close> on the title first,
  which throws a \<open>TypeError\<close> when the title is not a string.\<close>

definition isInstallSection :: "pageSection \<Rightarrow> error + bool" where
  "isInstallSection s =
     (case sec_title s of
        JObject \<Rightarrow> Inl TypeError
      | JString t \<Rightarrow>
          Inr (includesStr (toLowerCase t) ''install''
               \<or> includesStr (toLowerCase t) ''quick start''
               \<or> includesStr (sec_id s) ''installation''
               \<or> includesStr (sec_id s) ''setup''
               \<or> includesStr (sec_id s) ''quick-start''))"

text \<open>\<open>Array.prototype.some\<close> and \<open>find\<close> with a callback that may throw: the elements are
  tested in order up to the first hit.\<close>

fun someE :: "('a \<Rightarrow> error + bool) \<Rightarrow> 'a list \<Rightarrow> error + bool" where
  "someE p [] = Inr False"
| "someE p (x # xs) =
     (case p x of Inl e \<Rightarrow> Inl e | Inr b \<Rightarrow> if b then Inr True else someE p xs)"

fun findE :: "('a \<Rightarrow> error + bool) \<Rightarrow> 'a list \<Rightarrow> error + 'a option" where
  "findE p [] = Inr None"
| "findE p (x # xs) =
     (case p x of Inl e \<Rightarrow> Inl e | Inr b \<Rightarrow> if b then Inr (Some x) else findE p xs)"

definition ctaDefault :: "link list \<Rightarrow> link" where
  "ctaDefault links =
     (case find (\<lambda>l. includesStr (href l) ''github.com'') links of
        Some githubLink \<Rightarrow> \<lparr>label = ''View on GitHub'', href = href githubLink\<rparr>
      | None \<Rightarrow> \<lparr>label = ''Get Started'', href = ''#''\<rparr>)"

definition extractCTA :: "link list \<Rightarrow> pageSection list \<Rightarrow> error + link" where
  "extractCTA links sections =
     (case find isDemoLink links of
        Some l \<Rightarrow> Inr l
      | None \<Rightarrow>
          (case someE isInstallSection sections of
             Inl e \<Rightarrow> Inl e
           | Inr hasInstallation \<Rightarrow>
               if hasInstallation then
                 (case findE isInstallSection sections of
                    Inl e \<Rightarrow> Inl e
                  | Inr (Some installSection) \<Rightarrow>
                      Inr \<lparr>label = ''Get Started'', href = ''#'' @ sec_id installSection\<rparr>
                  | Inr None \<Rightarrow> Inr (ctaDefault links))
               else Inr (ctaDefault links)))"

section \<open>Section order\<close>

definition priorityOrder :: "string list" where
  "priorityOrder =
     [''how-it-works'', ''how it works'', ''quick-start'', ''quick start'',
      ''installation'', ''install'', ''getting-started'', ''getting started'',
      ''usage'', ''examples'', ''demo'', ''configuration'', ''api'', ''documentation'',
      ''tech-stack'', ''tech stack'', ''project-structure'', ''project structure'',
      ''idea-categories'', ''idea categories'', ''contributing'', ''roadmap'', ''faq'',
      ''troubleshooting'', ''changelog'', ''acknowledgments'', ''license'', ''connect'']"

text \<open>
  A JavaScript \<open>Map\<close> keeps its keys in the order of their first insertion; setting a key
  that is already there replaces the value and leaves the position. It is modelled as an
  association list with distinct keys; \<open>new Map(pairs)\<close> sets the pairs from left to right.
\<close>

fun mapSet :: "('k \<times> 'v) list \<Rightarrow> 'k \<Rightarrow> 'v \<Rightarrow> ('k \<times> 'v) list" where
  "mapSet [] k v = [(k, v)]"
| "mapSet ((k', v') # m) k v = (if k' = k then (k', v) # m else (k', v') # mapSet m k v)"

definition newMap :: "('k \<times> 'v) list \<Rightarrow> ('k \<times> 'v) list" where
  "newMap pairs = foldl (\<lambda>m p. case p of (k, v) \<Rightarrow> mapSet m k v) [] pairs"

definition matchesPriority :: "string \<Rightarrow> string \<Rightarrow> bool" where
  "matchesPriority i priorityId =
     (i = priorityId \<or> includesStr i priorityId \<or> includesStr priorityId i)"

text \<open>The loop over the priority list. For each \<open>priorityId\<close> the inner loop over the
  entries of the map stops at the first entry that is not yet added and matches.\<close>

fun priorityLoop ::
  "string list \<Rightarrow> (string \<times> pageSection) list \<Rightarrow> pageSection list \<Rightarrow> string set
   \<Rightarrow> pageSection list \<times> string set" where
  "priorityLoop [] entries ordered added = (ordered, added)"
| "priorityLoop (priorityId # rest) entries ordered added =
     (case find (\<lambda>e. case e of (i, s) \<Rightarrow> i \<notin> added \<and> matchesPriority i priorityId) entries of
        Some (i, s) \<Rightarrow> priorityLoop rest entries (ordered @ [s]) (insert i added)
      | None \<Rightarrow> priorityLoop rest entries ordered added)"

definition orderSectionsIntelligently :: "pageSection list \<Rightarrow> pageSection list" where
  "orderSectionsIntelligently sections =
     (let sectionById = newMap (map (\<lambda>s. (toLowerCase (sec_id s), s)) sections) in
      case priorityLoop priorityOrder sectionById [] {} of
        (ordered, added) \<Rightarrow>
          ordered @ filter (\<lambda>s. toLowerCase (sec_id s) \<notin> added) sections)"

subsection \<open>The placement on the list of sections\<close>

text \<open>
  The same greedy placement written on the list of sections itself, without the map and
  the set of added ids: for each entry of \<open>priorityOrder\<close> in turn, the first section not
  yet placed whose id contains, or is contained by, the entry is appended, and the sections
  never placed follow in document order. It uses the priority list of the source and is the
  form in which the loops of \<open>orderSectionsIntelligently\<close> are shown to permute sections
  with distinct ids.
\<close>

definition containsOrContained :: "string \<Rightarrow> string \<Rightarrow> bool" where
  "containsOrContained i keyword = (includesStr i keyword \<or> includesStr keyword i)"

fun placeByPriority ::
  "string list \<Rightarrow> pageSection list \<Rightarrow> pageSection list \<Rightarrow> pageSection list" where
  "placeByPriority [] placed notPlaced = placed @ notPlaced"
| "placeByPriority (keyword # rest) placed notPlaced =
     (case find (\<lambda>s. containsOrContained (sec_id s) keyword) notPlaced of
        Some s \<Rightarrow> placeByPriority rest (placed @ [s]) (remove1 s notPlaced)
      | None \<Rightarrow> placeByPriority rest placed notPlaced)"

definition greedyPlacement :: "pageSection list \<Rightarrow> pageSection list" where
  "greedyPlacement sections = placeByPriority priorityOrder [] sections"

section \<open>Secondary links\<close>

definition keepSecondary :: "link \<Rightarrow> link \<Rightarrow> bool" where
  "keepSecondary cta l =
     (if href l = href cta \<or> href l = ''#'' then False
      else if startsWith (href l) ''http'' then True
      else if startsWith (href l) ''#'' then True
      else False)"

definition isSocial :: "link \<Rightarrow> bool" where
  "isSocial l =
     (includesStr (href l) ''twitter.com'' \<or> includesStr (href l) ''x.com''
      \<or> includesStr (href l) ''linkedin.com'' \<or> includesStr (href l) ''bluesky'')"

text \<open>
  The links are objects, and \<open>l !== github\<close> and \<open>social.includes(l)\<close> compare object
  identities, not contents. \<open>extractLinks\<close> creates one object per link node, so an object
  is identified by its position in the filtered list: the selection works on pairs of a
  position and a link.
\<close>

definition selectSecondary :: "link list \<Rightarrow> link \<Rightarrow> link list" where
  "selectSecondary links cta =
     (let filtered = enumerate 0 (filter (keepSecondary cta) links);
          github = find (\<lambda>p. includesStr (href (snd p)) ''github.com'') filtered;
          social = filter (\<lambda>p. isSocial (snd p)) filtered;
          others = filter (\<lambda>p. Some p \<noteq> github \<and> p \<notin> set social) filtered;
          result = (case github of
                      Some g \<Rightarrow> if href (snd g) \<noteq> href cta then [g] else []
                    | None \<Rightarrow> []);
          result = result @ take 2 social;
          result = result @ take (3 - length result) others
      in map snd (take 4 result))"

text \<open>\<open>s.replace(pattern, '')\<close> with a string pattern removes its first occurrence.\<close>

fun removeFirst :: "string \<Rightarrow> string \<Rightarrow> string" where
  "removeFirst pat [] = []"
| "removeFirst pat (c # s) =
     (if startsWith (c # s) pat then drop (length pat) (c # s) else c # removeFirst pat s)"

text \<open>
  The label of a selected link. \<open>new URL(href)\<close> belongs to the platform, not to this
  program: the parameter \<open>hostname\<close> gives the host name of a URL, and \<open>None\<close> where the
  constructor throws a \<open>TypeError\<close>.
\<close>

definition secondaryLabel :: "(string \<Rightarrow> string option) \<Rightarrow> link \<Rightarrow> error + string" where
  "secondaryLabel hostname l =
     (if label l \<noteq> [] then Inr (label l)
      else if startsWith (href l) ''http'' then
        (case hostname (href l) of
           None \<Rightarrow> Inl TypeError
         | Some h \<Rightarrow> Inr (removeFirst ''www.'' h))
      else Inr (href l))"

fun mapE :: "('a \<Rightarrow> error + 'b) \<Rightarrow> 'a list \<Rightarrow> error + 'b list" where
  "mapE f [] = Inr []"
| "mapE f (x # xs) =
     (case f x of
        Inl e \<Rightarrow> Inl e
      | Inr y \<Rightarrow> (case mapE f xs of Inl e \<Rightarrow> Inl e | Inr ys \<Rightarrow> Inr (y # ys)))"

definition extractSecondaryLinks ::
  "(string \<Rightarrow> string option) \<Rightarrow> link list \<Rightarrow> link \<Rightarrow> error + link list" where
  "extractSecondaryLinks hostname links cta =
     mapE (\<lambda>l. case secondaryLabel hostname l of
                 Inl e \<Rightarrow> Inl e
               | Inr lbl \<Rightarrow> Inr \<lparr>label = lbl, href = href l\<rparr>)
       (selectSecondary links cta)"

section \<open>Badges\<close>

record badge =
  badge_label :: string
  badge_href :: "string option"

definition badgeImageVisitor :: "badge list \<times> string set \<Rightarrow> node \<Rightarrow> badge list \<times> string set" where
  "badgeImageVisitor st node =
     (case st of (badges, seen) \<Rightarrow>
        (case node of
           Image u (Some a) \<Rightarrow>
             if a \<noteq> [] then
               (let alt = toLowerCase a in
                if includesStr alt ''license'' \<or> includesStr alt ''version''
                   \<or> includesStr alt ''build'' \<or> includesStr alt ''status''
                   \<or> includesStr alt ''badge''
                then
                  (if toLowerCase a \<notin> seen
                   then (badges @ [\<lparr>badge_label = a,
                                     badge_href = (if u \<noteq> [] then Some u else None)\<rparr>],
                         insert (toLowerCase a) seen)
                   else (badges, seen))
                else (badges, seen))
             else (badges, seen)
         | _ \<Rightarrow> (badges, seen)))"

definition badgeLinkStep :: "badge list \<times> string set \<Rightarrow> link \<Rightarrow> badge list \<times> string set" where
  "badgeLinkStep st l =
     (case st of (badges, seen) \<Rightarrow>
        (let lbl = toLowerCase (label l); h = toLowerCase (href l) in
         if (includesStr lbl ''license'' \<or> includesStr lbl ''version''
             \<or> includesStr lbl ''npm'' \<or> includesStr lbl ''badge''
             \<or> includesStr h ''shields.io'' \<or> includesStr h ''badge'') \<and> lbl \<notin> seen
         then (badges @ [\<lparr>badge_label = label l, badge_href = Some (href l)\<rparr>], insert lbl seen)
         else (badges, seen)))"

text \<open>\<open>text.split(/\s+/)\<close>: the pieces between the maximal runs of white space; a run at
  either end of the text leaves an empty piece there.\<close>

function splitSpaces :: "string \<Rightarrow> string list" where
  "splitSpaces s =
     (case dropWhile (\<lambda>c. \<not> isSpace c) s of
        [] \<Rightarrow> [s]
      | c # rest \<Rightarrow> takeWhile (\<lambda>c. \<not> isSpace c) s # splitSpaces (dropWhile isSpace rest))"
  by pat_completeness auto
termination
proof (relation "measure length")
  fix s rest :: string and c :: char
  assume "dropWhile (\<lambda>c. \<not> isSpace c) s = c # rest"
  then have "length (c # rest) \<le> length s"
    by (metis length_dropWhile_le)
  moreover have "length (dropWhile isSpace rest) \<le> length rest"
    by (rule length_dropWhile_le)
  ultimately show "(dropWhile isSpace rest, s) \<in> measure length"
    by simp
qed simp

declare splitSpaces.simps [simp del]

text \<open>
  The pattern \<open>\b([A-Z][a-zA-Z]+(?:\s+[A-Z][a-zA-Z]+)*)\b\<close>. A word of the pattern must end
  where its run of letters ends, since what follows a word is white space or a word
  boundary. \<open>techChain\<close> takes the text after a word: it extends the match by as many further
  capitalised words as it can and, where the match cannot end after the last of them (a digit
  or an underscore follows), gives that word back. The result is the text after the match.
\<close>

definition atWordEnd :: "string \<Rightarrow> bool" where
  "atWordEnd r = (case r of [] \<Rightarrow> True | c # t \<Rightarrow> \<not> isWordChar c)"

definition nextTechWord :: "string \<Rightarrow> string option" where
  "nextTechWord r =
     (if takeWhile isSpace r = [] then None
      else (case dropWhile isSpace r of
              [] \<Rightarrow> None
            | c # t \<Rightarrow> if isUpper c \<and> takeWhile isAlpha t \<noteq> [] then Some (dropWhile isAlpha t)
                       else None))"

function techChain :: "string \<Rightarrow> string option" where
  "techChain r =
     (case (case nextTechWord r of None \<Rightarrow> None | Some r' \<Rightarrow> techChain r') of
        Some e \<Rightarrow> Some e
      | None \<Rightarrow> if atWordEnd r then Some r else None)"
  by pat_completeness auto
termination
proof (relation "measure length")
  fix r r' :: string
  assume "nextTechWord r = Some r'"
  then obtain c t where ne: "takeWhile isSpace r \<noteq> []"
    and d: "dropWhile isSpace r = c # t" and r': "r' = dropWhile isAlpha t"
    unfolding nextTechWord_def by (auto split: if_splits list.splits)
  have "length r' \<le> length t"
    unfolding r' by (rule length_dropWhile_le)
  moreover have "length (c # t) \<le> length r"
    by (metis d length_dropWhile_le)
  ultimately show "(r', r) \<in> measure length"
    by simp
qed simp

declare techChain.simps [simp del]

text \<open>One attempt of the pattern at the start of a string; \<open>prevWord\<close> tells whether the
  character before it is a word character.\<close>

definition techMatchAt :: "bool \<Rightarrow> string \<Rightarrow> string option" where
  "techMatchAt prevWord s =
     (case s of
        [] \<Rightarrow> None
      | c # t \<Rightarrow> if \<not> prevWord \<and> isUpper c \<and> takeWhile isAlpha t \<noteq> []
                 then techChain (dropWhile isAlpha t) else None)"

text \<open>The number of matches of \<open>text.match(/.../g)\<close>; each search starts where the
  previous match ended (a match ends in a letter).\<close>

function countTechWords :: "bool \<Rightarrow> string \<Rightarrow> nat" where
  "countTechWords prevWord [] = 0"
| "countTechWords prevWord (c # s) =
     (case techMatchAt prevWord (c # s) of
        Some rest \<Rightarrow> Suc (countTechWords True rest)
      | None \<Rightarrow> countTechWords (isWordChar c) s)"
  by pat_completeness auto
termination
proof -
  have chain: "techChain r = Some e \<Longrightarrow> length e \<le> length r" for r e
  proof (induction r rule: techChain.induct)
    case (1 r)
    show ?case
    proof (cases "nextTechWord r")
      case None
      with "1.prems" show ?thesis
        by (simp add: techChain.simps [of r] split: if_splits)
    next
      case (Some r')
      then obtain c t where d: "dropWhile isSpace r = c # t" and r': "r' = dropWhile isAlpha t"
        unfolding nextTechWord_def by (auto split: if_splits list.splits)
      have "length r' \<le> length t"
        unfolding r' by (rule length_dropWhile_le)
      moreover have "length (c # t) \<le> length r"
        by (metis d length_dropWhile_le)
      ultimately have le: "length r' \<le> length r"
        by simp
      show ?thesis
      proof (cases "techChain r'")
        case None
        with Some "1.prems" show ?thesis
          by (simp add: techChain.simps [of r] split: if_splits)
      next
        case (Some e')
        with \<open>nextTechWord r = Some r'\<close> "1.prems" have "e = e'"
          by (simp add: techChain.simps [of r])
        with "1.IH" [OF \<open>nextTechWord r = Some r'\<close>] Some le show ?thesis
          by simp
      qed
    qed
  qed
  have shorter: "techMatchAt p (c # s) = Some rest \<Longrightarrow> length rest \<le> length s" for p c s rest
  proof -
    assume "techMatchAt p (c # s) = Some rest"
    then have "techChain (dropWhile isAlpha s) = Some rest"
      unfolding techMatchAt_def by (simp split: if_splits)
    from chain [OF this] have "length rest \<le> length (dropWhile isAlpha s)" .
    also have "\<dots> \<le> length s"
      by (rule length_dropWhile_le)
    finally show ?thesis .
  qed
  show ?thesis
    by (relation "measure (\<lambda>p. length (snd p))") (auto simp: less_Suc_eq_le dest: shorter)
qed

definition techKeywordsBadges :: "string list" where
  "techKeywordsBadges =
     [''next'', ''react'', ''vue'', ''angular'', ''typescript'', ''javascript'', ''python'',
      ''node'', ''tailwind'', ''css'', ''html'', ''license'', ''mit'', ''apache'']"

definition badgeParagraphVisitor ::
  "badge list \<times> string set \<Rightarrow> node \<Rightarrow> badge list \<times> string set" where
  "badgeParagraphVisitor st node =
     (let text = extractTextFromNode node in
      if length text < 100 \<and> length (splitSpaces text) \<le> 8 then
        (let techWords = countTechWords False text in
         if techWords \<ge> 3 \<and> techWords \<le> 6 then
           (let words = filter (\<lambda>w. length w > 2
                                     \<and> (case w of a # b # t \<Rightarrow> isUpper a \<and> isLower b | _ \<Rightarrow> False)
                                     \<and> \<not> includesStr w ''.'') (splitSpaces text);
                validTechs = filter (\<lambda>w. list_ex (\<lambda>k. includesStr (toLowerCase w) k)
                                             techKeywordsBadges \<or> length w > 3) words
            in if length validTechs \<ge> 2 \<and> length validTechs \<le> 5 then
                 foldl (\<lambda>st word. case st of (badges, seen) \<Rightarrow>
                          if toLowerCase word \<notin> seen
                          then (badges @ [\<lparr>badge_label = word, badge_href = None\<rparr>],
                                insert (toLowerCase word) seen)
                          else (badges, seen))
                   st (take 4 validTechs)
               else st)
         else st)
      else st)"

definition extractBadges :: "node \<Rightarrow> link list \<Rightarrow> badge list" where
  "extractBadges ast links =
     (let st = foldl badgeImageVisitor ([], {}) (filter isImage (visit ast));
          st = foldl badgeLinkStep st links;
          st = (if length (fst st) < 2
                then foldl badgeParagraphVisitor st (filter isParagraph (visit ast))
                else st)
      in take 5 (fst st))"

section \<open>Technology stack\<close>

definition techKeywords :: "string list" where
  "techKeywords =
     [''react'', ''vue'', ''angular'', ''next'', ''typescript'', ''javascript'', ''python'',
      ''node'', ''rust'', ''go'', ''java'', ''php'', ''ruby'', ''swift'', ''kotlin'', ''docker'',
      ''kubernetes'', ''aws'', ''gcp'', ''azure'', ''postgresql'', ''mysql'', ''mongodb'',
      ''redis'', ''tailwind'', ''bootstrap'', ''sass'', ''webpack'', ''vite'']"

definition techParagraphVisitor :: "string list \<Rightarrow> node \<Rightarrow> string list" where
  "techParagraphVisitor techStack node =
     (let text = toLowerCase (extractTextFromNode node) in
      foldl (\<lambda>techStack keyword.
               if includesStr text keyword \<and> keyword \<notin> set techStack
               then techStack @ [keyword] else techStack)
        techStack techKeywords)"

definition isCode :: "node \<Rightarrow> bool" where
  "isCode n = (case n of Code lang v \<Rightarrow> True | _ \<Rightarrow> False)"

definition techCodeVisitor :: "string list \<Rightarrow> node \<Rightarrow> string list" where
  "techCodeVisitor techStack node =
     (case node of
        Code (Some lang) v \<Rightarrow>
          if lang \<noteq> [] \<and> lang \<notin> set techStack then techStack @ [lang] else techStack
      | _ \<Rightarrow> techStack)"

definition extractTechStack :: "node \<Rightarrow> string list option" where
  "extractTechStack ast =
     (let techStack = foldl techParagraphVisitor [] (filter isParagraph (visit ast));
          techStack = foldl techCodeVisitor techStack (filter isCode (visit ast))
      in if length techStack > 0 then Some (take 8 techStack) else None)"

section \<open>Testimonials\<close>

record testimonial =
  quote :: string
  author :: "string option"

text \<open>
  The dash class of the separator pattern, as the source file spells it; these are its
  members below 256.
\<close>

definition dashClass :: "char list" where
  "dashClass = [CHR ''-'', CHR 0xE2]"

text \<open>\<open>text.split(/[dashes]\s*|\n/)\<close>: a separator is a dash with the white space after it,
  or one line feed.\<close>

function splitQuote :: "string \<Rightarrow> string list" where
  "splitQuote s =
     (case dropWhile (\<lambda>c. c \<notin> set dashClass \<and> c \<noteq> CHR 0x0A) s of
        [] \<Rightarrow> [s]
      | c # rest \<Rightarrow>
          takeWhile (\<lambda>c. c \<notin> set dashClass \<and> c \<noteq> CHR 0x0A) s
          # splitQuote (if c \<in> set dashClass then dropWhile isSpace rest else rest))"
  by pat_completeness auto
termination
proof (relation "measure length")
  fix s rest :: string and c :: char
  assume "dropWhile (\<lambda>c. c \<notin> set dashClass \<and> c \<noteq> CHR 0x0A) s = c # rest"
  then have "length (c # rest) \<le> length s"
    by (metis length_dropWhile_le)
  moreover have "length (dropWhile isSpace rest) \<le> length rest"
    by (rule length_dropWhile_le)
  ultimately show "(if c \<in> set dashClass then dropWhile isSpace rest else rest, s)
                   \<in> measure length"
    by simp
qed simp

declare splitQuote.simps [simp del]

definition isBlockquote :: "node \<Rightarrow> bool" where
  "isBlockquote n = (case n of Blockquote cs \<Rightarrow> True | _ \<Rightarrow> False)"

definition testimonialVisitor :: "testimonial list \<Rightarrow> node \<Rightarrow> testimonial list" where
  "testimonialVisitor testimonials node =
     (let text = extractTextFromNode node in
      if length text > 20 \<and> length text < 300 then
        (let parts = splitQuote text;
             q = (if trim (hd parts) \<noteq> [] then trim (hd parts) else trim text);
             a = (case tl parts of [] \<Rightarrow> None | p # ps \<Rightarrow> Some (trim p))
         in if q \<noteq> [] then
              testimonials @ [\<lparr>quote = q,
                                author = (case a of None \<Rightarrow> None
                                          | Some t \<Rightarrow> if t \<noteq> [] then Some t else None)\<rparr>]
            else testimonials)
      else testimonials)"

definition extractTestimonials :: "node \<Rightarrow> testimonial list option" where
  "extractTestimonials ast =
     (let testimonials = foldl testimonialVisitor [] (filter isBlockquote (visit ast))
      in if length testimonials > 0 then Some (take 3 testimonials) else None)"

section \<open>Title\<close>

definition isHeading :: "node \<Rightarrow> bool" where
  "isHeading n = (case n of Heading d cs \<Rightarrow> True | _ \<Rightarrow> False)"

definition titleHeadingVisitor :: "string \<Rightarrow> node \<Rightarrow> string" where
  "titleHeadingVisitor title node =
     (if isHeading1 node \<and> title = [] then extractTextFromNode node else title)"

definition titleParagraphVisitor :: "string \<Rightarrow> node \<Rightarrow> string" where
  "titleParagraphVisitor title node =
     (if title = [] then
        (let text = extractTextFromNode node in
         if trim text \<noteq> [] then trim text else title)
      else title)"

definition extractTitle :: "node \<Rightarrow> string" where
  "extractTitle ast =
     (let title = foldl titleHeadingVisitor [] (filter isHeading (visit ast));
          title = (if title = []
                   then foldl titleParagraphVisitor title (filter isParagraph (visit ast))
                   else title)
      in if title = [] then ''Untitled Project'' else title)"

section \<open>Features\<close>

record feature =
  feat_title :: string
  feat_desc :: "string option"
  feat_icon :: "string option"

definition featureKeywords :: "string list" where
  "featureKeywords =
     [''feature'', ''what'' @ [CHR 0x27] @ ''s'', ''why'', ''highlight'', ''benefit'',
      ''advantage'', ''capability'', ''key'']"

text \<open>
  The heading test also accepts a text that contains the sparkles glyph, and a list item may
  start with a pictograph that becomes its icon. Both involve code units above 255, which no
  string of the model contains: that disjunct is false and the icon is always absent here.
\<close>

definition isFeatureHeading :: "node \<Rightarrow> bool" where
  "isFeatureHeading node =
     (case node of
        Heading d cs \<Rightarrow>
          (let text = toLowerCase (extractTextFromNode node) in
           list_ex (\<lambda>keyword. includesStr text keyword) featureKeywords)
      | _ \<Rightarrow> False)"

text \<open>The inner loop: the list among the next four nodes, unless a heading of depth at most
  2 comes first.\<close>

fun lookForList :: "node list \<Rightarrow> node option" where
  "lookForList [] = None"
| "lookForList (nextNode # rest) =
     (case nextNode of
        List cs \<Rightarrow> Some nextNode
      | Heading d cs \<Rightarrow> if d \<le> 2 then None else lookForList rest
      | _ \<Rightarrow> lookForList rest)"

fun findFeatureList :: "node list \<Rightarrow> node option" where
  "findFeatureList [] = None"
| "findFeatureList (node # rest) =
     (if isFeatureHeading node then lookForList (take 4 rest) else findFeatureList rest)"

text \<open>\<open>replace(/^[-*+]\s+/, '')\<close>\<close>

definition stripMarker :: "string \<Rightarrow> string" where
  "stripMarker s =
     (case s of
        c # r \<Rightarrow> if c \<in> set ''-*+'' \<and> takeWhile isSpace r \<noteq> [] then dropWhile isSpace r else s
      | [] \<Rightarrow> s)"

text \<open>\<open>replace(/^\*\*|\*\*$/g, '')\<close>\<close>

definition stripBold :: "string \<Rightarrow> string" where
  "stripBold s =
     (let s1 = (if startsWith s ''**'' then drop 2 s else s) in
      if startsWith (rev s1) ''**'' then take (length s1 - 2) s1 else s1)"

definition isLineTerminator :: "char \<Rightarrow> bool" where
  "isLineTerminator c = (c = CHR 0x0A \<or> c = CHR 0x0D)"

text \<open>
  The pattern \<open>^(.+?)\s*[dashes]\s*(.+)$\<close>. \<open>dashRest\<close> matches the part after the first
  group and yields the second group: white space, a dash, white space, and the rest of the
  text, which must be non-empty and free of line terminators. The white space after the dash
  is taken greedily; when nothing follows it, the pattern gives back its last character to
  the second group. \<open>dashSplit\<close> grows the first group, which is lazy, one character at a
  time until the rest matches.
\<close>

definition dashRest :: "string \<Rightarrow> string option" where
  "dashRest r =
     (case dropWhile isSpace r of
        [] \<Rightarrow> None
      | d # r2 \<Rightarrow>
          if d \<in> set dashClass then
            (let g = dropWhile isSpace r2 in
             if g \<noteq> [] then (if list_ex isLineTerminator g then None else Some g)
             else if r2 \<noteq> [] \<and> \<not> isLineTerminator (last r2) then Some [last r2]
             else None)
          else None)"

fun dashSplit :: "string \<Rightarrow> string \<Rightarrow> (string \<times> string) option" where
  "dashSplit g [] = None"
| "dashSplit g (c # r) =
     (case dashRest (c # r) of
        Some g2 \<Rightarrow> Some (g, g2)
      | None \<Rightarrow> if isLineTerminator c then None else dashSplit (g @ [c]) r)"

definition dashMatch :: "string \<Rightarrow> (string \<times> string) option" where
  "dashMatch s =
     (case s of
        [] \<Rightarrow> None
      | c # r \<Rightarrow> if isLineTerminator c then None else dashSplit [c] r)"

text \<open>\<open>split(/:\s+/)\<close>\<close>

function splitColon :: "string \<Rightarrow> string \<Rightarrow> string list" where
  "splitColon cur [] = [cur]"
| "splitColon cur (c # r) =
     (if c = CHR '':'' \<and> takeWhile isSpace r \<noteq> []
      then cur # splitColon [] (dropWhile isSpace r)
      else splitColon (cur @ [c]) r)"
  by pat_completeness auto
termination
  by (relation "measure (\<lambda>p. length (snd p))") (auto simp: less_Suc_eq_le length_dropWhile_le)

definition featureItemVisitor :: "feature list \<Rightarrow> node \<Rightarrow> feature list" where
  "featureItemVisitor features node =
     (let text = extractTextFromNode node in
      if trim text \<noteq> [] then
        (let cleanText = trim (stripMarker text) in
         case dashMatch cleanText of
           Some (g1, g2) \<Rightarrow>
             features @ [\<lparr>feat_title = trim (stripBold g1),
                           feat_desc = Some (trim (stripBold g2)),
                           feat_icon = None\<rparr>]
         | None \<Rightarrow>
             (let parts = splitColon [] cleanText;
                  title = (if hd parts \<noteq> [] then hd parts else take 60 cleanText);
                  desc = trim (joinWith '': '' (tl parts))
              in features @ [\<lparr>feat_title = trim (stripBold title),
                               feat_desc = (if desc \<noteq> [] then Some (trim (stripBold desc))
                                            else None),
                               feat_icon = None\<rparr>]))
      else features)"

definition isStrong :: "node \<Rightarrow> bool" where
  "isStrong n = (case n of Strong cs \<Rightarrow> True | _ \<Rightarrow> False)"

definition featureStrongVisitor :: "feature list \<Rightarrow> node \<Rightarrow> feature list" where
  "featureStrongVisitor features strongNode =
     (let strongText = extractTextFromNode strongNode in
      if trim strongText \<noteq> [] \<and> length features < 5
      then features @ [\<lparr>feat_title = trim strongText, feat_desc = None, feat_icon = None\<rparr>]
      else features)"

definition featureParagraphVisitor :: "feature list \<Rightarrow> node \<Rightarrow> feature list" where
  "featureParagraphVisitor features node =
     (if length features < 5
      then foldl featureStrongVisitor features (filter isStrong (visit node))
      else features)"

definition extractFeatures :: "node \<Rightarrow> feature list" where
  "extractFeatures ast =
     (let features = (case findFeatureList (children ast) of
                        Some featureList \<Rightarrow>
                          foldl featureItemVisitor [] (filter isListItem (visit featureList))
                      | None \<Rightarrow> []);
          features = (if length features = 0
                      then foldl featureParagraphVisitor features
                             (filter isParagraph (visit ast))
                      else features)
      in take 6 features)"

section \<open>The page model\<close>

record pageModel =
  pm_title :: string
  pm_tagline :: string
  pm_cta :: link
  pm_secondaryLinks :: "link list"
  pm_features :: "feature list"
  pm_sections :: "pageSection list"
  pm_badges :: "badge list option"
  pm_heroImage :: "heroImage option"
  pm_stats :: "stat list option"
  pm_techStack :: "string list option"
  pm_testimonials :: "testimonial list option"

text \<open>
  \<open>parseReadme\<close>, after the parser has produced the tree. An optional field of the record
  is \<open>None\<close> where the source assigns \<open>undefined\<close>. The extractors run in the order of the
  source; the first exception ends the call.
\<close>

definition parseReadme :: "(string \<Rightarrow> string option) \<Rightarrow> node \<Rightarrow> error + pageModel" where
  "parseReadme hostname ast =
     (let title = extractTitle ast;
          tagline = extractTagline ast;
          links = extractLinks ast;
          sections = extractSections ast
      in case extractCTA links sections of
           Inl e \<Rightarrow> Inl e
         | Inr cta \<Rightarrow>
             (case extractSecondaryLinks hostname links cta of
                Inl e \<Rightarrow> Inl e
              | Inr secondaryLinks \<Rightarrow>
                  (let features = extractFeatures ast;
                       badges = extractBadges ast links;
                       heroImage = extractHeroImage ast;
                       stats = extractStats ast;
                       techStack = extractTechStack ast;
                       testimonials = extractTestimonials ast;
                       orderedSections = orderSectionsIntelligently sections
                   in Inr \<lparr>pm_title = title,
                           pm_tagline = tagline,
                           pm_cta = cta,
                           pm_secondaryLinks = secondaryLinks,
                           pm_features = features,
                           pm_sections = orderedSections,
                           pm_badges = Some badges,
                           pm_heroImage = heroImage,
                           pm_stats = stats,
                           pm_techStack = techStack,
                           pm_testimonials = testimonials\<rparr>)))"

text \<open>The host name of the URLs used in the examples; any other string is taken as one
  that the URL constructor rejects.\<close>

definition exampleHostname :: "string \<Rightarrow> string option" where
  "exampleHostname u =
     (if u = ''https://www.example.com/docs'' then Some ''www.example.com''
      else if u = ''https://github.com/foo/bar'' then Some ''github.com''
      else None)"

section \<open>The end-to-end example\<close>

text \<open>
  The tree that the parser produces for the example document of the specification:
  \<^verbatim>\<open># Foo\<close>, a paragraph \<^verbatim>\<open>Does bar.\<close>, \<^verbatim>\<open>## Features\<close> with the list item
  \<^verbatim>\<open>**Fast** - very fast\<close>, and \<^verbatim>\<open>## Installation\<close> with a fenced \<^verbatim>\<open>bash\<close> block
  \<^verbatim>\<open>npm i foo\<close>.
\<close>

definition e2eDoc :: node where
  "e2eDoc =
     Root [Heading 1 [Text ''Foo''],
           Paragraph [Text ''Does bar.''],
           Heading 2 [Text ''Features''],
           List [ListItem [Paragraph [Strong [Text ''Fast''], Text '' - very fast'']]],
           Heading 2 [Text ''Installation''],
           Code (Some ''bash'') ''npm i foo'']"

text \<open>A section matches the installation keywords when the test of \<open>extractCTA\<close> returns
  true for it.\<close>

definition matchesInstall :: "pageSection \<Rightarrow> bool" where
  "matchesInstall s = (isInstallSection s = Inr True)"

section \<open>Auxiliary facts\<close>

lemma find_member: "find P xs = Some x \<Longrightarrow> x \<in> set xs"
  by (induction xs) (auto split: if_splits)

lemma parseReadme_Inr:
  assumes "parseReadme hostname ast = Inr pm"
  shows "\<exists>cta sec. extractCTA (extractLinks ast) (extractSections ast) = Inr cta
           \<and> extractSecondaryLinks hostname (extractLinks ast) cta = Inr sec
           \<and> pm = \<lparr>pm_title = extractTitle ast,
                     pm_tagline = extractTagline ast,
                     pm_cta = cta,
                     pm_secondaryLinks = sec,
                     pm_features = extractFeatures ast,
                     pm_sections = orderSectionsIntelligently (extractSections ast),
                     pm_badges = Some (extractBadges ast (extractLinks ast)),
                     pm_heroImage = extractHeroImage ast,
                     pm_stats = extractStats ast,
                     pm_techStack = extractTechStack ast,
                     pm_testimonials = extractTestimonials ast\<rparr>"
  using assms unfolding parseReadme_def Let_def
  by (auto split: sum.splits)

section \<open>Properties of the tagline\<close>

text \<open>
  C5. For every document the tagline (the one of the result record, which is the value of
  \<open>extractTagline\<close>) has at most 160 characters and is never empty: a selected
  tagline of more than 160 characters is cut to its first 157 characters followed by
  \<open>...\<close>, and when the scans select nothing the fixed placeholder sentence (itself at
  most 160 characters) is returned.
\<close>

theorem tagline_bounded:
  "length (extractTagline ast) \<le> 160 \<and> extractTagline ast \<noteq> []
   \<and> (160 < length (selectTagline ast) \<longrightarrow>
        extractTagline ast = take 157 (selectTagline ast) @ ''...'')
   \<and> (selectTagline ast = [] \<longrightarrow> extractTagline ast = taglinePlaceholder)
   \<and> length taglinePlaceholder \<le> 160
   \<and> (parseReadme hostname ast = Inr pm \<longrightarrow>
        length (pm_tagline pm) \<le> 160 \<and> pm_tagline pm \<noteq> [])"
proof -
  have "length (extractTagline ast) \<le> 160 \<and> extractTagline ast \<noteq> []"
    by (auto simp: extractTagline_def Let_def taglinePlaceholder_def)
  moreover have "pm_tagline pm = extractTagline ast" if "parseReadme hostname ast = Inr pm"
    using parseReadme_Inr [OF that] by auto
  ultimately show ?thesis
    by (auto simp: extractTagline_def Let_def taglinePlaceholder_def)
qed

theorem tagline_bounded_witness:
  "160 < length (selectTagline (Root [Heading 1 [Text ''Foo''],
                                      Paragraph [Text (replicate 170 CHR ''a'')]]))
   \<and> extractTagline (Root [Heading 1 [Text ''Foo''],
                           Paragraph [Text (replicate 170 CHR ''a'')]])
       = replicate 157 CHR ''a'' @ ''...''
   \<and> selectTagline (Root []) = []
   \<and> extractTagline (Root []) = ''A great project that solves real problems.''
   \<and> map_sum id pm_tagline
         (parseReadme exampleHostname
            (Root [Heading 1 [Text ''Foo''], Paragraph [Text (replicate 170 CHR ''a'')]]))
       = Inr (replicate 157 CHR ''a'' @ ''...'')
   \<and> length (replicate 157 CHR ''a'' @ ''...'') \<le> 160"
proof -
  let ?d = "Root [Heading 1 [Text ''Foo''], Paragraph [Text (replicate 170 CHR ''a'')]]"
  let ?pm = "\<lparr>pm_title = ''Foo'', pm_tagline = replicate 157 CHR ''a'' @ ''...'',
              pm_cta = \<lparr>label = ''Get Started'', href = ''#''\<rparr>,
              pm_secondaryLinks = [], pm_features = [], pm_sections = [],
              pm_badges = Some [], pm_heroImage = None, pm_stats = None,
              pm_techStack = None, pm_testimonials = None\<rparr>"
  have sel: "selectTagline ?d = replicate 170 CHR ''a''"
    by code_simp
  have long: "160 < length (selectTagline ?d)"
    unfolding sel by simp
  from tagline_bounded [of ?d] long
  have "extractTagline ?d = take 157 (selectTagline ?d) @ ''...''"
    by blast
  then have cut: "extractTagline ?d = replicate 157 CHR ''a'' @ ''...''"
    unfolding sel by simp
  have none: "selectTagline (Root []) = []"
    by code_simp
  from tagline_bounded [of "Root []"] none
  have "extractTagline (Root []) = taglinePlaceholder"
    by blast
  then have dflt: "extractTagline (Root []) = ''A great project that solves real problems.''"
    by (simp add: taglinePlaceholder_def)
  have run: "parseReadme exampleHostname ?d = Inr ?pm"
    by code_simp
  from tagline_bounded [of ?d exampleHostname ?pm] run
  have "length (pm_tagline ?pm) \<le> 160"
    by blast
  then have len: "length (replicate 157 CHR ''a'' @ ''...'') \<le> 160"
    by (simp only: pageModel.simps)
  from run have res: "map_sum id pm_tagline (parseReadme exampleHostname ?d)
                      = Inr (replicate 157 CHR ''a'' @ ''...'')"
    by simp
  from long cut none dflt res len show ?thesis
    by blast
qed

section \<open>Properties of the hero image\<close>

lemma hero_found:
  "foldl heroVisitor (Some img, f) ns = (Some img, f \<or> (\<exists>n\<in>set ns. isHeading1 n))"
  by (induction ns arbitrary: f) (auto simp: heroVisitor_def)

lemma hero_afterH1:
  "fst (foldl heroVisitor (None, True) ns) =
     (case filter isImage ns of [] \<Rightarrow> None | img # rest \<Rightarrow> Some img)"
proof (induction ns)
  case Nil
  show ?case by simp
next
  case (Cons n ns)
  show ?case
  proof (cases "isImage n")
    case True
    then have "heroVisitor (None, True) n = (Some n, True)"
      by (auto simp: heroVisitor_def isImage_def isHeading1_def Let_def split: node.splits)
    with True show ?thesis by (simp add: hero_found)
  next
    case False
    then have "heroVisitor (None, True) n = (None, True)"
      by (auto simp: heroVisitor_def)
    with False Cons show ?thesis by simp
  qed
qed

lemma hero_beforeH1:
  "fst (foldl heroVisitor (None, False) ns) =
     (case filter isImage (dropWhile (\<lambda>n. \<not> isHeading1 n) ns) of
        [] \<Rightarrow> None | img # rest \<Rightarrow> Some img)"
proof (induction ns)
  case Nil
  show ?case by simp
next
  case (Cons n ns)
  show ?case
  proof (cases "isHeading1 n")
    case True
    then have "heroVisitor (None, False) n = (None, True)"
      by (simp add: heroVisitor_def)
    moreover from True have "\<not> isImage n"
      by (auto simp: isImage_def isHeading1_def split: node.splits)
    ultimately show ?thesis using True by (simp add: hero_afterH1)
  next
    case False
    then have "heroVisitor (None, False) n = (None, False)"
      by (simp add: heroVisitor_def)
    with False Cons show ?thesis by simp
  qed
qed

lemma hero_scan: "fst (foldl heroVisitor (None, False) (visit ast)) = firstImageAfterH1 ast"
  by (simp add: hero_beforeH1 firstImageAfterH1_def)

text \<open>
  C7. The hero image of the result record is the value of \<open>extractHeroImage\<close>; when
  present, it is the first image node met after the first depth-1
  heading, whatever its alt text: the keywords screenshot, demo, preview, logo, hero, banner
  play no role, so an early image that matches none of them is never passed over for a later
  one that does. (The field is omitted when that first image has an empty URL.)
\<close>

theorem hero_is_first_image:
  "extractHeroImage ast =
     (case firstImageAfterH1 ast of
        Some (Image u a) \<Rightarrow>
          if u \<noteq> [] then
            Some \<lparr>hero_url = u,
                  hero_alt = (case a of None \<Rightarrow> ''Hero image''
                         | Some t \<Rightarrow> if t \<noteq> [] then t else ''Hero image'')\<rparr>
          else None
      | _ \<Rightarrow> None)
   \<and> (parseReadme hostname ast = Inr pm \<longrightarrow> pm_heroImage pm = extractHeroImage ast)"
proof -
  have "pm_heroImage pm = extractHeroImage ast" if "parseReadme hostname ast = Inr pm"
    using parseReadme_Inr [OF that] by auto
  then show ?thesis
    by (simp add: extractHeroImage_def hero_scan)
qed

theorem hero_is_first_image_witness:
  "firstImageAfterH1 (Root [Heading 1 [Text ''T''],
                            Paragraph [Image ''a.png'' (Some ''diagram'')],
                            Paragraph [Image ''b.png'' (Some ''Screenshot'')]])
     = Some (Image ''a.png'' (Some ''diagram''))
   \<and> extractHeroImage (Root [Heading 1 [Text ''T''],
                             Paragraph [Image ''a.png'' (Some ''diagram'')],
                             Paragraph [Image ''b.png'' (Some ''Screenshot'')]])
     = Some \<lparr>hero_url = ''a.png'', hero_alt = ''diagram''\<rparr>
   \<and> map_sum id pm_heroImage
         (parseReadme exampleHostname
            (Root [Heading 1 [Text ''T''],
                   Paragraph [Image ''a.png'' (Some ''diagram'')],
                   Paragraph [Image ''b.png'' (Some ''Screenshot'')]]))
     = Inr (Some \<lparr>hero_url = ''a.png'', hero_alt = ''diagram''\<rparr>)"
proof -
  let ?d = "Root [Heading 1 [Text ''T''],
                  Paragraph [Image ''a.png'' (Some ''diagram'')],
                  Paragraph [Image ''b.png'' (Some ''Screenshot'')]]"
  let ?pm = "\<lparr>pm_title = ''T'',
              pm_tagline = ''A great project that solves real problems.'',
              pm_cta = \<lparr>label = ''Get Started'', href = ''#''\<rparr>,
              pm_secondaryLinks = [], pm_features = [], pm_sections = [],
              pm_badges = Some [],
              pm_heroImage = Some \<lparr>hero_url = ''a.png'', hero_alt = ''diagram''\<rparr>,
              pm_stats = None, pm_techStack = None, pm_testimonials = None\<rparr>"
  have first: "firstImageAfterH1 ?d = Some (Image ''a.png'' (Some ''diagram''))"
    by code_simp
  have run: "parseReadme exampleHostname ?d = Inr ?pm"
    by code_simp
  from hero_is_first_image [of ?d exampleHostname ?pm]
  have hero: "extractHeroImage ?d = Some \<lparr>hero_url = ''a.png'', hero_alt = ''diagram''\<rparr>"
    unfolding first by simp
  from hero_is_first_image [of ?d exampleHostname ?pm] run
  have "pm_heroImage ?pm = extractHeroImage ?d"
    by blast
  with run hero
  have "map_sum id pm_heroImage (parseReadme exampleHostname ?d)
        = Inr (Some \<lparr>hero_url = ''a.png'', hero_alt = ''diagram''\<rparr>)"
    by simp
  with first hero show ?thesis
    by blast
qed

text \<open>
  C10. A document with no depth-1 heading anywhere in its tree has no hero image, also when
  it contains image nodes.
\<close>

theorem no_h1_no_hero:
  "\<forall>n \<in> set (visit ast). \<not> isHeading1 n \<Longrightarrow>
   extractHeroImage ast = None
   \<and> (parseReadme hostname ast = Inr pm \<longrightarrow> pm_heroImage pm = None)"
proof -
  assume "\<forall>n \<in> set (visit ast). \<not> isHeading1 n"
  then have none: "dropWhile (\<lambda>n. \<not> isHeading1 n) (visit ast) = []"
    by simp
  have "firstImageAfterH1 ast = None"
    unfolding firstImageAfterH1_def none by simp
  then have "extractHeroImage ast = None"
    by (simp add: extractHeroImage_def hero_scan)
  moreover have "pm_heroImage pm = extractHeroImage ast" if "parseReadme hostname ast = Inr pm"
    using parseReadme_Inr [OF that] by auto
  ultimately show ?thesis
    by simp
qed

theorem no_h1_no_hero_witness:
  "list_all (\<lambda>n. \<not> isHeading1 n)
     (visit (Root [Heading 2 [Text ''T''], Paragraph [Image ''a.png'' (Some ''logo'')]]))
   \<and> extractHeroImage (Root [Heading 2 [Text ''T''],
                             Paragraph [Image ''a.png'' (Some ''logo'')]]) = None
   \<and> map_sum id pm_heroImage
         (parseReadme exampleHostname
            (Root [Heading 2 [Text ''T''], Paragraph [Image ''a.png'' (Some ''logo'')]]))
     = Inr None"
proof -
  let ?d = "Root [Heading 2 [Text ''T''], Paragraph [Image ''a.png'' (Some ''logo'')]]"
  let ?pm = "\<lparr>pm_title = ''Untitled Project'',
              pm_tagline = ''A great project that solves real problems.'',
              pm_cta = \<lparr>label = ''Get Started'', href = ''#''\<rparr>,
              pm_secondaryLinks = [], pm_features = [], pm_sections = [],
              pm_badges = Some [], pm_heroImage = None, pm_stats = None,
              pm_techStack = None, pm_testimonials = None\<rparr>"
  have h: "list_all (\<lambda>n. \<not> isHeading1 n) (visit ?d)"
    by code_simp
  then have all: "\<forall>n \<in> set (visit ?d). \<not> isHeading1 n"
    by (simp only: list_all_iff)
  have run: "parseReadme exampleHostname ?d = Inr ?pm"
    by code_simp
  from no_h1_no_hero [OF all, of exampleHostname ?pm] run
  have none: "extractHeroImage ?d = None" and "pm_heroImage ?pm = None"
    by blast+
  from run have "map_sum id pm_heroImage (parseReadme exampleHostname ?d) = Inr None"
    by simp
  with h none show ?thesis
    by blast
qed

section \<open>Properties of the statistics\<close>

lemma push_fold:
  "foldl (\<lambda>stats m. case m of (v, l) \<Rightarrow>
            if length stats < 4 then stats @ [\<lparr>stat_label = l, stat_value = v\<rparr>] else stats)
     stats ms
   = (if length stats \<le> 4
      then take 4 (stats @ map (\<lambda>m. case m of (v, l) \<Rightarrow> \<lparr>stat_label = l, stat_value = v\<rparr>) ms)
      else stats)"
  by (induction ms arbitrary: stats) (auto split: prod.splits simp: take_Cons')

lemma statsVisitor_take:
  "length stats \<le> 4 \<Longrightarrow> statsVisitor stats node = take 4 (stats @ statPairs node)"
  by (simp add: statsVisitor_def statPairs_def push_fold)

lemma statsVisitor_fold:
  "length stats \<le> 4 \<Longrightarrow>
   foldl statsVisitor stats ns = take 4 (stats @ concat (map statPairs ns))"
proof (induction ns arbitrary: stats)
  case Nil
  then show ?case by simp
next
  case (Cons n ns)
  have "length (take 4 (stats @ statPairs n)) \<le> 4" by simp
  from Cons.IH [OF this] Cons.prems show ?case
    by (simp add: statsVisitor_take take_append min_def)
qed

text \<open>
  C8, as stated, fails. A list item holds its text in a paragraph child, which the paragraph
  pass has already scanned: the one occurrence \<open>100+ stars\<close> is collected twice. And the
  paragraph pass runs over the whole document before the list-item pass starts: the pair of
  a later paragraph comes before the pair that the list-item pass collects for an earlier
  list item (the second and third documents; in the third the text of the item is a
  heading, which the paragraph pass does not see).
\<close>

theorem stats_counterexample:
  "matchAllStat ''100+ stars'' = [(''100+'', ''stars'')]
   \<and> extractStats (Root [List [ListItem [Paragraph [Text ''100+ stars'']]]])
       = Some [\<lparr>stat_label = ''stars'', stat_value = ''100+''\<rparr>,
               \<lparr>stat_label = ''stars'', stat_value = ''100+''\<rparr>]
   \<and> extractStats (Root [List [ListItem [Paragraph [Text ''5 cats'']]],
                         Paragraph [Text ''7 dogs'']])
       = Some [\<lparr>stat_label = ''cats'', stat_value = ''5''\<rparr>,
               \<lparr>stat_label = ''dogs'', stat_value = ''7''\<rparr>,
               \<lparr>stat_label = ''cats'', stat_value = ''5''\<rparr>]
   \<and> extractStats (Root [List [ListItem [Heading 3 [Text ''5 cats'']]],
                         Paragraph [Text ''7 dogs'']])
       = Some [\<lparr>stat_label = ''dogs'', stat_value = ''7''\<rparr>,
               \<lparr>stat_label = ''cats'', stat_value = ''5''\<rparr>]"
  by code_simp

text \<open>
  C8, amended. The pattern is applied to every paragraph of the document in document order
  and then, in a second pass, to every list item in document order; the first four pairs
  found in that order are the result, and the field is omitted when there is none.
\<close>

theorem stats_two_passes:
  "extractStats ast =
     (let found = concat (map statPairs (filter isParagraph (visit ast)))
                  @ concat (map statPairs (filter isListItem (visit ast)))
      in if found = [] then None else Some (take 4 found))"
proof -
  define ps where "ps = concat (map statPairs (filter isParagraph (visit ast)))"
  define ls where "ls = concat (map statPairs (filter isListItem (visit ast)))"
  define found where "found = ps @ ls"
  have 1: "foldl statsVisitor [] (filter isParagraph (visit ast)) = take 4 ps"
    by (simp add: statsVisitor_fold ps_def)
  have 2: "foldl statsVisitor (take 4 ps) (filter isListItem (visit ast))
           = take 4 (take 4 ps @ ls)"
    by (simp add: statsVisitor_fold ls_def)
  have 3: "take 4 (take 4 ps @ ls) = take 4 found"
    by (simp add: take_append min_def found_def)
  have "extractStats ast
        = (if length (take 4 found) > 0 then Some (take 4 (take 4 found)) else None)"
    unfolding extractStats_def Let_def 1 2 3 by simp
  also have "\<dots> = (if found = [] then None else Some (take 4 found))"
    by (cases found) simp_all
  finally show ?thesis
    by (simp only: Let_def found_def ps_def ls_def)
qed

theorem stats_two_passes_witness:
  "extractStats (Root [Paragraph [Text ''Used by 50k developers with 1 2 3 4 5''],
                       List [ListItem [Heading 3 [Text ''9 lives'']]]])
     = Some [\<lparr>stat_label = ''developers'', stat_value = ''50k''\<rparr>,
             \<lparr>stat_label = ''2'', stat_value = ''1''\<rparr>,
             \<lparr>stat_label = ''4'', stat_value = ''3''\<rparr>,
             \<lparr>stat_label = ''lives'', stat_value = ''9''\<rparr>]"
proof -
  let ?d = "Root [Paragraph [Text ''Used by 50k developers with 1 2 3 4 5''],
                  List [ListItem [Heading 3 [Text ''9 lives'']]]]"
  have found: "concat (map statPairs (filter isParagraph (visit ?d)))
               @ concat (map statPairs (filter isListItem (visit ?d)))
      = [\<lparr>stat_label = ''developers'', stat_value = ''50k''\<rparr>,
         \<lparr>stat_label = ''2'', stat_value = ''1''\<rparr>,
         \<lparr>stat_label = ''4'', stat_value = ''3''\<rparr>,
         \<lparr>stat_label = ''lives'', stat_value = ''9''\<rparr>]"
    by code_simp
  from stats_two_passes [of ?d] show ?thesis
    unfolding found by simp
qed

section \<open>Properties of the section order\<close>

lemma startsWith_self: "startsWith s s"
  by (induction s) auto

lemma includes_self: "includesStr s s"
  by (cases s) (auto simp: startsWith_self)

lemma matches_containsOrContained: "matchesPriority i k = containsOrContained i k"
  by (auto simp: matchesPriority_def containsOrContained_def includes_self)

lemma mapSet_fresh: "k \<notin> fst ` set m \<Longrightarrow> mapSet m k v = m @ [(k, v)]"
  by (induction m) auto

lemma newMap_fold_distinct:
  "distinct (map fst (m @ ps)) \<Longrightarrow>
   foldl (\<lambda>m p. case p of (k, v) \<Rightarrow> mapSet m k v) m ps = m @ ps"
proof (induction ps arbitrary: m)
  case Nil
  show ?case by simp
next
  case (Cons p ps)
  obtain k v where p: "p = (k, v)" by (cases p)
  from Cons.prems have fresh: "k \<notin> fst ` set m"
    by (auto simp: p)
  from Cons.prems have "distinct (map fst ((m @ [(k, v)]) @ ps))"
    by (simp add: p)
  from Cons.IH [OF this] show ?case
    by (simp add: p mapSet_fresh [OF fresh])
qed

lemma newMap_distinct: "distinct (map fst ps) \<Longrightarrow> newMap ps = ps"
  using newMap_fold_distinct [of "[]" ps] by (simp add: newMap_def)

lemma find_entries:
  "find (\<lambda>e. case e of (i, s) \<Rightarrow> i \<notin> added \<and> matchesPriority i k) (map (\<lambda>s. (sec_id s, s)) ss)
   = map_option (\<lambda>s. (sec_id s, s))
       (find (\<lambda>s. containsOrContained (sec_id s) k) (filter (\<lambda>s. sec_id s \<notin> added) ss))"
  by (induction ss) (auto simp: matches_containsOrContained)

lemma remove1_filter_id:
  assumes "distinct (map sec_id ss)" and "s \<in> set ss"
  shows "remove1 s (filter (\<lambda>x. sec_id x \<notin> added) ss)
         = filter (\<lambda>x. sec_id x \<notin> insert (sec_id s) added) ss"
proof -
  from assms(1) have d: "distinct ss" and inj: "inj_on sec_id (set ss)"
    by (simp_all add: distinct_map)
  have "remove1 s (filter (\<lambda>x. sec_id x \<notin> added) ss)
        = filter (\<lambda>x. x \<noteq> s) (filter (\<lambda>x. sec_id x \<notin> added) ss)"
    using d by (simp add: distinct_remove1_removeAll removeAll_filter_not_eq) metis
  also have "\<dots> = filter (\<lambda>x. sec_id x \<notin> insert (sec_id s) added) ss"
    using inj assms(2) by (auto simp: inj_on_def intro!: filter_cong)
  finally show ?thesis .
qed

lemma priorityLoop_spec:
  assumes "distinct (map sec_id ss)"
  shows "(case priorityLoop ks (map (\<lambda>s. (sec_id s, s)) ss) placed added of
            (ordered, added') \<Rightarrow> ordered @ filter (\<lambda>s. sec_id s \<notin> added') ss)
         = placeByPriority ks placed (filter (\<lambda>s. sec_id s \<notin> added) ss)"
proof (induction ks arbitrary: placed added)
  case Nil
  show ?case by simp
next
  case (Cons k ks)
  let ?rest = "filter (\<lambda>s. sec_id s \<notin> added) ss"
  show ?case
  proof (cases "find (\<lambda>s. containsOrContained (sec_id s) k) ?rest")
    case None
    then show ?thesis
      using Cons.IH [of placed added] by (simp add: find_entries)
  next
    case (Some s)
    then have "s \<in> set ?rest"
      by (rule find_member)
    then have s: "s \<in> set ss"
      by simp
    from remove1_filter_id [OF assms s, of added] Some show ?thesis
      using Cons.IH [of "placed @ [s]" "insert (sec_id s) added"] by (simp add: find_entries)
  qed
qed

lemma order_refines:
  assumes "distinct (map sec_id ss)" and "\<forall>s \<in> set ss. toLowerCase (sec_id s) = sec_id s"
  shows "orderSectionsIntelligently ss = greedyPlacement ss"
proof -
  from assms(2) have keys: "map (\<lambda>s. (toLowerCase (sec_id s), s)) ss = map (\<lambda>s. (sec_id s, s)) ss"
    by simp
  have "map fst (map (\<lambda>s. (sec_id s, s)) ss) = map sec_id ss"
    by (simp add: comp_def)
  with assms(1) have "distinct (map fst (map (\<lambda>s. (sec_id s, s)) ss))"
    by (simp only:)
  then have m: "newMap (map (\<lambda>s. (sec_id s, s)) ss) = map (\<lambda>s. (sec_id s, s)) ss"
    by (rule newMap_distinct)
  have f: "filter (\<lambda>s. toLowerCase (sec_id s) \<notin> A) ss = filter (\<lambda>s. sec_id s \<notin> A) ss" for A
    using assms(2) by (auto intro: filter_cong)
  show ?thesis
    unfolding orderSectionsIntelligently_def greedyPlacement_def Let_def keys m f
    using priorityLoop_spec [OF assms(1), of priorityOrder "[]" "{}"] by simp
qed

lemma placeByPriority_mset:
  "mset (placeByPriority ks placed rest) = mset placed + mset rest"
proof (induction ks arbitrary: placed rest)
  case Nil
  show ?case by simp
next
  case (Cons k ks)
  show ?case
  proof (cases "find (\<lambda>s. containsOrContained (sec_id s) k) rest")
    case None
    then show ?thesis using Cons.IH by simp
  next
    case (Some s)
    then have "s \<in> set rest"
      by (rule find_member)
    with Some show ?thesis
      using Cons.IH [of "placed @ [s]" "remove1 s rest"] by simp
  qed
qed

lemma greedyPlacement_mset: "mset (greedyPlacement ss) = mset ss"
  by (simp add: greedyPlacement_def placeByPriority_mset)

lemma toLower_slug: "isSlugChar c \<Longrightarrow> toLowerChar c = c"
  by (auto simp: isSlugChar_def isLower_def isDigit_def toLowerChar_def)

lemma order_example:
  "orderSectionsIntelligently
      [\<lparr>sec_id = ''license'', sec_title = t1, sec_content = c1\<rparr>,
       \<lparr>sec_id = ''installation'', sec_title = t2, sec_content = c2\<rparr>,
       \<lparr>sec_id = ''faq'', sec_title = t3, sec_content = c3\<rparr>]
    = [\<lparr>sec_id = ''installation'', sec_title = t2, sec_content = c2\<rparr>,
       \<lparr>sec_id = ''faq'', sec_title = t3, sec_content = c3\<rparr>,
       \<lparr>sec_id = ''license'', sec_title = t1, sec_content = c1\<rparr>]"
  by code_simp

text \<open>
  C4. The example of the claim holds (\<open>order_example\<close>), and for sections with pairwise
  distinct ids the loops are the greedy placement of the claim (\<open>order_refines\<close>). The
  claim fails on the code when two sections have the same id. The orderer looks the
  sections up in a map from ids to sections, which keeps one entry per id, holding the last
  section with that id, and it records what it has placed by id. Of two sections \<open>usage\<close>
  the second is placed under the keyword \<open>usage\<close>, not the first, and the first is in
  the output nowhere. A document with an \<open>Installation\<close> heading under \<open>Linux\<close> and
  another under \<open>Windows\<close> loses the Linux text in this way.
\<close>

theorem order_drops_duplicate_id:
  "orderSectionsIntelligently
      [\<lparr>sec_id = ''usage'', sec_title = JString ''How it works'', sec_content = ''first''\<rparr>,
       \<lparr>sec_id = ''usage'', sec_title = JString ''How it works'', sec_content = ''second''\<rparr>]
    = [\<lparr>sec_id = ''usage'', sec_title = JString ''How it works'', sec_content = ''second''\<rparr>]
   \<and> extractSections
        (Root [Heading 2 [Text ''Linux''], Heading 3 [Text ''Installation''],
               Paragraph [Text ''apt install foo''],
               Heading 2 [Text ''Windows''], Heading 3 [Text ''Installation''],
               Paragraph [Text ''choco install foo'']])
    = [\<lparr>sec_id = ''installation'', sec_title = JString ''Install'',
         sec_content = ''apt install foo''\<rparr>,
       \<lparr>sec_id = ''installation'', sec_title = JString ''Install'',
         sec_content = ''choco install foo''\<rparr>]
   \<and> parseReadme hostname
        (Root [Heading 2 [Text ''Linux''], Heading 3 [Text ''Installation''],
               Paragraph [Text ''apt install foo''],
               Heading 2 [Text ''Windows''], Heading 3 [Text ''Installation''],
               Paragraph [Text ''choco install foo'']])
    = Inr \<lparr>pm_title = ''apt install foo'', pm_tagline = ''apt install foo'',
            pm_cta = \<lparr>label = ''Get Started'', href = ''#installation''\<rparr>,
            pm_secondaryLinks = [], pm_features = [],
            pm_sections =
              [\<lparr>sec_id = ''installation'', sec_title = JString ''Install'',
                 sec_content = ''choco install foo''\<rparr>],
            pm_badges = Some [], pm_heroImage = None, pm_stats = None,
            pm_techStack = None, pm_testimonials = None\<rparr>"
  by code_simp

section \<open>Properties of the sections\<close>

lemma toLowerCase_slug: "toLowerCase (filter isSlugChar s) = filter isSlugChar s"
  by (induction s) (auto simp: toLowerCase_def toLower_slug)

lemma startSection_slug: "toLowerCase (sec_id (startSection node)) = sec_id (startSection node)"
  by (simp add: startSection_def Let_def toLowerCase_slug)

lemma saveSection_slug:
  assumes "\<forall>s \<in> set sections. toLowerCase (sec_id s) = sec_id s"
    and "\<forall>cur. currentSection = Some cur \<longrightarrow> toLowerCase (sec_id cur) = sec_id cur"
  shows "\<forall>s \<in> set (saveSection sections currentSection contentNodes).
           toLowerCase (sec_id s) = sec_id s"
  using assms by (auto simp: saveSection_def Let_def split: option.splits)

lemma sectionsLoop_slug:
  assumes "\<forall>s \<in> set sections. toLowerCase (sec_id s) = sec_id s"
    and "\<forall>cur. currentSection = Some cur \<longrightarrow> toLowerCase (sec_id cur) = sec_id cur"
    and "sectionsLoop ns sections currentSection contentNodes skip = (sections', cur', nodes')"
  shows "(\<forall>s \<in> set sections'. toLowerCase (sec_id s) = sec_id s)
         \<and> (\<forall>cur. cur' = Some cur \<longrightarrow> toLowerCase (sec_id cur) = sec_id cur)"
  using assms
proof (induction ns arbitrary: sections currentSection contentNodes skip)
  case Nil
  then show ?case by simp
next
  case (Cons n ns)
  show ?case
  proof (cases "isSectionHeading n")
    case True
    have a: "\<forall>s \<in> set (saveSection sections currentSection contentNodes).
               toLowerCase (sec_id s) = sec_id s"
      using Cons.prems(1,2) by (rule saveSection_slug)
    have b: "\<forall>cur. Some (startSection n) = Some cur \<longrightarrow> toLowerCase (sec_id cur) = sec_id cur"
      by (simp add: startSection_slug)
    from Cons.prems(3) True
    have "sectionsLoop ns (saveSection sections currentSection contentNodes)
            (Some (startSection n)) [] False = (sections', cur', nodes')"
      by simp
    from Cons.IH [OF a b this] show ?thesis .
  next
    case False
    with Cons.prems(3)
    have "\<exists>nodes sk. sectionsLoop ns sections currentSection nodes sk = (sections', cur', nodes')"
      by (auto split: if_splits)
    then obtain nodes sk
      where "sectionsLoop ns sections currentSection nodes sk = (sections', cur', nodes')"
      by blast
    from Cons.IH [OF Cons.prems(1,2) this] show ?thesis .
  qed
qed

lemma extractSections_slug:
  "\<forall>s \<in> set (extractSections ast). toLowerCase (sec_id s) = sec_id s"
proof -
  obtain sections cur nodes
    where l: "sectionsLoop (children ast) [] None [] True = (sections, cur, nodes)"
    by (cases "sectionsLoop (children ast) [] None [] True")
  have "(\<forall>s \<in> set sections. toLowerCase (sec_id s) = sec_id s)
        \<and> (\<forall>c. cur = Some c \<longrightarrow> toLowerCase (sec_id c) = sec_id c)"
    by (rule sectionsLoop_slug [OF _ _ l]) simp_all
  then have "\<forall>s \<in> set (saveSection sections cur nodes). toLowerCase (sec_id s) = sec_id s"
    by (intro saveSection_slug) simp_all
  then show ?thesis
    by (simp add: extractSections_def l)
qed

lemma order_distinct_ids:
  assumes "distinct (map sec_id ss)" and "\<forall>s \<in> set ss. toLowerCase (sec_id s) = sec_id s"
  shows "distinct (map sec_id (orderSectionsIntelligently ss))"
proof -
  have "mset (map sec_id (orderSectionsIntelligently ss)) = mset (map sec_id ss)"
    by (simp add: order_refines [OF assms] greedyPlacement_mset)
  then show ?thesis
    using assms(1) by (metis mset_eq_imp_distinct_iff)
qed

text \<open>
  C2, as stated, fails. Nothing makes the ids unique: two headings \<open>Notes\<close>, each with
  content, give two sections with the id \<open>notes\<close>, and since that id matches no priority
  keyword the orderer appends both.
\<close>

theorem section_ids_counterexample:
  "parseReadme exampleHostname
     (Root [Heading 2 [Text ''Notes''], Paragraph [Text ''a''],
            Heading 2 [Text ''Notes''], Paragraph [Text ''b'']])
   = Inr \<lparr>pm_title = ''a'', pm_tagline = ''a'',
           pm_cta = \<lparr>label = ''Get Started'', href = ''#''\<rparr>,
           pm_secondaryLinks = [], pm_features = [],
           pm_sections =
             [\<lparr>sec_id = ''notes'', sec_title = JString ''Notes'', sec_content = ''a''\<rparr>,
              \<lparr>sec_id = ''notes'', sec_title = JString ''Notes'', sec_content = ''b''\<rparr>],
           pm_badges = Some [], pm_heroImage = None, pm_stats = None,
           pm_techStack = None, pm_testimonials = None\<rparr>
   \<and> \<not> distinct (map sec_id
         [\<lparr>sec_id = ''notes'', sec_title = JString ''Notes'', sec_content = ''a''\<rparr>,
          \<lparr>sec_id = ''notes'', sec_title = JString ''Notes'', sec_content = ''b''\<rparr>])"
  by code_simp

text \<open>
  C2, amended. When the sections that the segmenter produces have pairwise distinct ids, the
  ids of the sections of the result record are pairwise distinct: the orderer then only
  rearranges them.
\<close>

theorem section_ids_distinct:
  "parseReadme hostname ast = Inr pm \<and> distinct (map sec_id (extractSections ast))
   \<longrightarrow> distinct (map sec_id (pm_sections pm))"
proof
  assume a: "parseReadme hostname ast = Inr pm \<and> distinct (map sec_id (extractSections ast))"
  then have "pm_sections pm = orderSectionsIntelligently (extractSections ast)"
    using parseReadme_Inr [of hostname ast pm] by auto
  with a show "distinct (map sec_id (pm_sections pm))"
    by (simp add: order_distinct_ids extractSections_slug)
qed

theorem section_ids_distinct_witness:
  "parseReadme exampleHostname
     (Root [Heading 2 [Text ''Notes''], Paragraph [Text ''a''],
            Heading 2 [Text ''Usage''], Paragraph [Text ''b'']])
   = Inr \<lparr>pm_title = ''a'', pm_tagline = ''a'',
           pm_cta = \<lparr>label = ''Get Started'', href = ''#''\<rparr>,
           pm_secondaryLinks = [], pm_features = [],
           pm_sections =
             [\<lparr>sec_id = ''usage'', sec_title = JString ''How it works'', sec_content = ''b''\<rparr>,
              \<lparr>sec_id = ''notes'', sec_title = JString ''Notes'', sec_content = ''a''\<rparr>],
           pm_badges = Some [], pm_heroImage = None, pm_stats = None,
           pm_techStack = None, pm_testimonials = None\<rparr>
   \<and> distinct (map sec_id (extractSections
         (Root [Heading 2 [Text ''Notes''], Paragraph [Text ''a''],
                Heading 2 [Text ''Usage''], Paragraph [Text ''b'']])))
   \<and> distinct [''usage'', ''notes'']"
proof -
  let ?d = "Root [Heading 2 [Text ''Notes''], Paragraph [Text ''a''],
                  Heading 2 [Text ''Usage''], Paragraph [Text ''b'']]"
  let ?pm = "\<lparr>pm_title = ''a'', pm_tagline = ''a'',
           pm_cta = \<lparr>label = ''Get Started'', href = ''#''\<rparr>,
           pm_secondaryLinks = [], pm_features = [],
           pm_sections =
             [\<lparr>sec_id = ''usage'', sec_title = JString ''How it works'', sec_content = ''b''\<rparr>,
              \<lparr>sec_id = ''notes'', sec_title = JString ''Notes'', sec_content = ''a''\<rparr>],
           pm_badges = Some [], pm_heroImage = None, pm_stats = None,
           pm_techStack = None, pm_testimonials = None\<rparr>"
  have run: "parseReadme exampleHostname ?d = Inr ?pm"
    by code_simp
  have ids: "distinct (map sec_id (extractSections ?d))"
    by code_simp
  from section_ids_distinct [of exampleHostname ?d ?pm] run ids
  have "distinct (map sec_id (pm_sections ?pm))"
    by blast
  then have "distinct [''usage'', ''notes'']"
    by simp
  with run ids show ?thesis
    by blast
qed

section \<open>Properties of the call to action\<close>

lemma someE_pure:
  "\<forall>x \<in> set xs. \<exists>b. p x = Inr b \<Longrightarrow> someE p xs = Inr (\<exists>x \<in> set xs. p x = Inr True)"
  by (induction xs) auto

lemma findE_pure:
  "\<forall>x \<in> set xs. \<exists>b. p x = Inr b \<Longrightarrow> findE p xs = Inr (find (\<lambda>x. p x = Inr True) xs)"
  by (induction xs) auto

lemma isInstallSection_string:
  "sec_title s \<noteq> JObject \<Longrightarrow> \<exists>b. isInstallSection s = Inr b"
  by (cases "sec_title s") (auto simp: isInstallSection_def)

lemma find_None_no_demo:
  "\<forall>l \<in> set links. hasDemoKeyword l \<longrightarrow> startsWith (href l) ''#'' \<Longrightarrow> find isDemoLink links = None"
  by (induction links) (auto simp: isDemoLink_def)

lemma cta_install:
  assumes links: "\<forall>l \<in> set links. hasDemoKeyword l \<longrightarrow> startsWith (href l) ''#''"
    and titles: "\<forall>s \<in> set sections. sec_title s \<noteq> JObject"
    and first: "find matchesInstall sections = Some s"
  shows "extractCTA links sections = Inr \<lparr>label = ''Get Started'', href = ''#'' @ sec_id s\<rparr>"
proof -
  from titles have pure: "\<forall>x \<in> set sections. \<exists>b. isInstallSection x = Inr b"
    by (simp add: isInstallSection_string)
  from first have f: "find (\<lambda>x. isInstallSection x = Inr True) sections = Some s"
    by (simp add: matchesInstall_def [abs_def])
  then have "s \<in> set sections" and "isInstallSection s = Inr True"
    by (auto simp: find_Some_iff)
  then have ex: "\<exists>x \<in> set sections. isInstallSection x = Inr True"
    by blast
  show ?thesis
    unfolding extractCTA_def find_None_no_demo [OF links] someE_pure [OF pure] findE_pure [OF pure] f
    using ex by simp
qed

lemma cta_e2e_example:
  "extractLinks e2eDoc = []
   \<and> map_sum id pm_cta (parseReadme hostname e2eDoc)
       = Inr \<lparr>label = ''Get Started'', href = ''#installation''\<rparr>"
  by code_simp

text \<open>
  C1. The claim holds whenever the titles of the sections are strings (\<open>cta_install\<close>),
  and for the end-to-end example (\<open>cta_e2e_example\<close>). It fails on the code for a
  document with no links, a section \<open>Constructor\<close> and, after it, a section
  \<open>Installation\<close>: the sections are tested in order, the title of the first is the
  function \<open>Object\<close> that the lookup in the synonym table found, and
  \<open>s.title.toLowerCase()\<close> throws before the installation section is reached. No link is
  returned.
\<close>

theorem cta_throws_before_install:
  "extractLinks
     (Root [Heading 2 [Text ''Constructor''], Paragraph [Text ''Creates a client.''],
            Heading 2 [Text ''Installation''], Paragraph [Text ''npm i foo'']]) = []
   \<and> extractSections
         (Root [Heading 2 [Text ''Constructor''], Paragraph [Text ''Creates a client.''],
                Heading 2 [Text ''Installation''], Paragraph [Text ''npm i foo'']])
       = [\<lparr>sec_id = ''constructor'', sec_title = JObject,
            sec_content = ''Creates a client.''\<rparr>,
          \<lparr>sec_id = ''installation'', sec_title = JString ''Install'',
            sec_content = ''npm i foo''\<rparr>]
   \<and> matchesInstall \<lparr>sec_id = ''installation'', sec_title = JString ''Install'',
                         sec_content = ''npm i foo''\<rparr>
   \<and> extractCTA []
         [\<lparr>sec_id = ''constructor'', sec_title = JObject,
            sec_content = ''Creates a client.''\<rparr>,
          \<lparr>sec_id = ''installation'', sec_title = JString ''Install'',
            sec_content = ''npm i foo''\<rparr>]
       = Inl TypeError
   \<and> parseReadme hostname
         (Root [Heading 2 [Text ''Constructor''], Paragraph [Text ''Creates a client.''],
                Heading 2 [Text ''Installation''], Paragraph [Text ''npm i foo'']])
       = Inl TypeError"
  by code_simp

section \<open>Properties of the secondary links\<close>

lemma enumerate_snd: "p \<in> set (enumerate n xs) \<Longrightarrow> snd p \<in> set xs"
proof -
  assume "p \<in> set (enumerate n xs)"
  then have "snd p \<in> set (map snd (enumerate n xs))"
    by (simp only: set_map image_eqI)
  then show ?thesis
    by (simp only: map_snd_enumerate)
qed

lemma selectSecondary_subset:
  "set (selectSecondary links cta) \<subseteq> set (filter (keepSecondary cta) links)"
proof -
  define f where "f = enumerate 0 (filter (keepSecondary cta) links)"
  define github where "github = find (\<lambda>p. includesStr (href (snd p)) ''github.com'') f"
  define social where "social = filter (\<lambda>p. isSocial (snd p)) f"
  define others where "others = filter (\<lambda>p. Some p \<noteq> github \<and> p \<notin> set social) f"
  define r0 where "r0 = (case github of
                           Some g \<Rightarrow> if href (snd g) \<noteq> href cta then [g] else []
                         | None \<Rightarrow> [])"
  define r1 where "r1 = r0 @ take 2 social"
  define r2 where "r2 = r1 @ take (3 - length r1) others"
  have sel: "selectSecondary links cta = map snd (take 4 r2)"
    unfolding selectSecondary_def Let_def f_def github_def social_def others_def
      r0_def r1_def r2_def ..
  have "set r0 \<subseteq> set f"
    unfolding r0_def github_def by (auto split: option.splits dest: find_member [OF sym])
  moreover have "set (take 2 social) \<subseteq> set f"
    unfolding social_def by (auto dest: in_set_takeD)
  moreover have "set (take (3 - length r1) others) \<subseteq> set f"
    unfolding others_def by (auto dest: in_set_takeD)
  ultimately have "set r2 \<subseteq> set f"
    unfolding r2_def r1_def by simp
  then have "set (take 4 r2) \<subseteq> set f"
    by (auto dest: in_set_takeD)
  then have "set (map snd (take 4 r2)) \<subseteq> set (filter (keepSecondary cta) links)"
    unfolding f_def using enumerate_snd by fastforce
  with sel show ?thesis
    by simp
qed

lemma selectSecondary_length: "length (selectSecondary links cta) \<le> 4"
  by (simp add: selectSecondary_def Let_def)

lemma mapE_hrefs:
  "mapE (\<lambda>l. case secondaryLabel hostname l of Inl e \<Rightarrow> Inl e
              | Inr lbl \<Rightarrow> Inr \<lparr>label = lbl, href = href l\<rparr>) xs = Inr ys
   \<Longrightarrow> map href ys = map href xs"
  by (induction xs arbitrary: ys) (auto split: sum.splits)

lemma secondary_props:
  assumes "extractSecondaryLinks hostname links cta = Inr sec"
  shows "(\<forall>l \<in> set sec. href l \<noteq> href cta \<and> href l \<noteq> ''#'') \<and> length sec \<le> 4"
proof -
  from assms have h: "map href sec = map href (selectSecondary links cta)"
    unfolding extractSecondaryLinks_def by (rule mapE_hrefs)
  have "\<forall>l \<in> set (selectSecondary links cta). href l \<noteq> href cta \<and> href l \<noteq> ''#''"
    using selectSecondary_subset [of links cta] by (auto simp: keepSecondary_def split: if_splits)
  then have "\<forall>x \<in> set (map href (selectSecondary links cta)). x \<noteq> href cta \<and> x \<noteq> ''#''"
    by simp
  with h have "\<forall>x \<in> set (map href sec). x \<noteq> href cta \<and> x \<noteq> ''#''"
    by simp
  moreover from h have "length sec = length (selectSecondary links cta)"
    by (metis length_map)
  ultimately show ?thesis
    using selectSecondary_length [of links cta] by simp
qed

text \<open>
  C6. In every result record no secondary link has the URL of the call to action, none has
  the bare placeholder \<open>#\<close>, and there are at most four of them.
\<close>

theorem secondary_links_curated:
  "parseReadme hostname ast = Inr pm \<longrightarrow>
     (\<forall>l \<in> set (pm_secondaryLinks pm). href l \<noteq> href (pm_cta pm) \<and> href l \<noteq> ''#'')
     \<and> length (pm_secondaryLinks pm) \<le> 4"
proof
  assume "parseReadme hostname ast = Inr pm"
  from parseReadme_Inr [OF this] obtain cta sec
    where "extractSecondaryLinks hostname (extractLinks ast) cta = Inr sec"
      and "pm_cta pm = cta" and "pm_secondaryLinks pm = sec"
    by auto
  with secondary_props [of hostname "extractLinks ast" cta sec]
  show "(\<forall>l \<in> set (pm_secondaryLinks pm). href l \<noteq> href (pm_cta pm) \<and> href l \<noteq> ''#'')
     \<and> length (pm_secondaryLinks pm) \<le> 4"
    by simp
qed

theorem secondary_links_curated_witness:
  "parseReadme exampleHostname
     (Root [Heading 1 [Text ''Foo''],
            Paragraph [Link ''https://github.com/foo/bar'' [Text ''GitHub''], Text '' '',
                       Link ''#'' [Text ''Top''], Text '' '',
                       Link ''https://foo.dev/demo'' [Text ''Live demo''], Text '' '',
                       Link ''https://twitter.com/foo'' [Text ''Twitter''], Text '' '',
                       Link ''https://foo.dev/demo'' [Text ''Try it'']]])
   = Inr \<lparr>pm_title = ''Foo'',
           pm_tagline = ''GitHub Top Live demo Twitter Try it'',
           pm_cta = \<lparr>label = ''Live demo'', href = ''https://foo.dev/demo''\<rparr>,
           pm_secondaryLinks =
             [\<lparr>label = ''GitHub'', href = ''https://github.com/foo/bar''\<rparr>,
              \<lparr>label = ''Twitter'', href = ''https://twitter.com/foo''\<rparr>],
           pm_features = [], pm_sections = [], pm_badges = Some [],
           pm_heroImage = None, pm_stats = None, pm_techStack = None,
           pm_testimonials = None\<rparr>
   \<and> list_all (\<lambda>l. href l \<noteq> ''https://foo.dev/demo'' \<and> href l \<noteq> ''#'')
         [\<lparr>label = ''GitHub'', href = ''https://github.com/foo/bar''\<rparr>,
          \<lparr>label = ''Twitter'', href = ''https://twitter.com/foo''\<rparr>]"
proof -
  let ?d = "Root [Heading 1 [Text ''Foo''],
            Paragraph [Link ''https://github.com/foo/bar'' [Text ''GitHub''], Text '' '',
                       Link ''#'' [Text ''Top''], Text '' '',
                       Link ''https://foo.dev/demo'' [Text ''Live demo''], Text '' '',
                       Link ''https://twitter.com/foo'' [Text ''Twitter''], Text '' '',
                       Link ''https://foo.dev/demo'' [Text ''Try it'']]]"
  let ?pm = "\<lparr>pm_title = ''Foo'',
           pm_tagline = ''GitHub Top Live demo Twitter Try it'',
           pm_cta = \<lparr>label = ''Live demo'', href = ''https://foo.dev/demo''\<rparr>,
           pm_secondaryLinks =
             [\<lparr>label = ''GitHub'', href = ''https://github.com/foo/bar''\<rparr>,
              \<lparr>label = ''Twitter'', href = ''https://twitter.com/foo''\<rparr>],
           pm_features = [], pm_sections = [], pm_badges = Some [],
           pm_heroImage = None, pm_stats = None, pm_techStack = None,
           pm_testimonials = None\<rparr>"
  have run: "parseReadme exampleHostname ?d = Inr ?pm"
    by code_simp
  from secondary_links_curated [of exampleHostname ?d ?pm] run
  have "\<forall>l \<in> set (pm_secondaryLinks ?pm). href l \<noteq> href (pm_cta ?pm) \<and> href l \<noteq> ''#''"
    by blast
  then have "list_all (\<lambda>l. href l \<noteq> ''https://foo.dev/demo'' \<and> href l \<noteq> ''#'')
               [\<lparr>label = ''GitHub'', href = ''https://github.com/foo/bar''\<rparr>,
                \<lparr>label = ''Twitter'', href = ''https://twitter.com/foo''\<rparr>]"
    by (simp only: pageModel.simps link.simps list_all_iff)
  with run show ?thesis
    by (rule_tac conjI)
qed

section \<open>Properties of the optional fields\<close>

text \<open>
  C3, as stated, fails for the badges. \<open>extractBadges\<close> returns an array in every case and
  \<open>parseReadme\<close> stores it as it is: for a document without badges the field is present
  and empty. (The page components test \<open>model.badges.length > 0\<close> before they use it.)
\<close>

theorem optional_fields_counterexample:
  "parseReadme exampleHostname (Root [])
   = Inr \<lparr>pm_title = ''Untitled Project'',
           pm_tagline = ''A great project that solves real problems.'',
           pm_cta = \<lparr>label = ''Get Started'', href = ''#''\<rparr>,
           pm_secondaryLinks = [], pm_features = [], pm_sections = [],
           pm_badges = Some [], pm_heroImage = None, pm_stats = None,
           pm_techStack = None, pm_testimonials = None\<rparr>"
  by code_simp

text \<open>
  C3, amended. In every result record the fields stats, techStack and testimonials, when
  present, are non-empty collections (an extractor that finds nothing omits the field), and
  heroImage, when present, has a non-empty URL and alt text; badges is always present and may
  be empty.
\<close>

theorem optional_fields:
  "parseReadme hostname ast = Inr pm \<longrightarrow>
     pm_badges pm \<noteq> None
     \<and> pm_stats pm \<noteq> Some [] \<and> pm_techStack pm \<noteq> Some [] \<and> pm_testimonials pm \<noteq> Some []
     \<and> (\<forall>h. pm_heroImage pm = Some h \<longrightarrow> hero_url h \<noteq> [] \<and> hero_alt h \<noteq> [])"
proof
  assume "parseReadme hostname ast = Inr pm"
  from parseReadme_Inr [OF this]
  have b: "pm_badges pm = Some (extractBadges ast (extractLinks ast))"
    and s: "pm_stats pm = extractStats ast"
    and t: "pm_techStack pm = extractTechStack ast"
    and q: "pm_testimonials pm = extractTestimonials ast"
    and h: "pm_heroImage pm = extractHeroImage ast"
    by auto
  have "extractStats ast \<noteq> Some []"
    by (auto simp: extractStats_def Let_def)
  moreover have "extractTechStack ast \<noteq> Some []"
    by (auto simp: extractTechStack_def Let_def)
  moreover have "extractTestimonials ast \<noteq> Some []"
    by (auto simp: extractTestimonials_def Let_def)
  moreover have "\<forall>h. extractHeroImage ast = Some h \<longrightarrow> hero_url h \<noteq> [] \<and> hero_alt h \<noteq> []"
    by (auto simp: extractHeroImage_def split: option.splits node.splits if_splits)
  ultimately show "pm_badges pm \<noteq> None
     \<and> pm_stats pm \<noteq> Some [] \<and> pm_techStack pm \<noteq> Some [] \<and> pm_testimonials pm \<noteq> Some []
     \<and> (\<forall>h. pm_heroImage pm = Some h \<longrightarrow> hero_url h \<noteq> [] \<and> hero_alt h \<noteq> [])"
    by (simp add: b s t q h)
qed

theorem optional_fields_witness:
  "parseReadme exampleHostname
     (Root [Heading 1 [Text ''Foo''],
            Paragraph [Image ''shot.png'' None],
            Paragraph [Text ''Used by 50k developers'']])
   = Inr \<lparr>pm_title = ''Foo'', pm_tagline = ''Used by 50k developers'',
           pm_cta = \<lparr>label = ''Get Started'', href = ''#''\<rparr>,
           pm_secondaryLinks = [], pm_features = [], pm_sections = [],
           pm_badges = Some [],
           pm_heroImage = Some \<lparr>hero_url = ''shot.png'', hero_alt = ''Hero image''\<rparr>,
           pm_stats = Some [\<lparr>stat_label = ''developers'', stat_value = ''50k''\<rparr>],
           pm_techStack = None, pm_testimonials = None\<rparr>
   \<and> Some [\<lparr>stat_label = ''developers'', stat_value = ''50k''\<rparr>] \<noteq> Some []
   \<and> hero_url \<lparr>hero_url = ''shot.png'', hero_alt = ''Hero image''\<rparr> \<noteq> []
   \<and> hero_alt \<lparr>hero_url = ''shot.png'', hero_alt = ''Hero image''\<rparr> \<noteq> []"
proof -
  let ?d = "Root [Heading 1 [Text ''Foo''],
            Paragraph [Image ''shot.png'' None],
            Paragraph [Text ''Used by 50k developers'']]"
  let ?pm = "\<lparr>pm_title = ''Foo'', pm_tagline = ''Used by 50k developers'',
           pm_cta = \<lparr>label = ''Get Started'', href = ''#''\<rparr>,
           pm_secondaryLinks = [], pm_features = [], pm_sections = [],
           pm_badges = Some [],
           pm_heroImage = Some \<lparr>hero_url = ''shot.png'', hero_alt = ''Hero image''\<rparr>,
           pm_stats = Some [\<lparr>stat_label = ''developers'', stat_value = ''50k''\<rparr>],
           pm_techStack = None, pm_testimonials = None\<rparr>"
  have run: "parseReadme exampleHostname ?d = Inr ?pm"
    by code_simp
  from optional_fields [of exampleHostname ?d ?pm] run
  have "pm_stats ?pm \<noteq> Some []
        \<and> (\<forall>h. pm_heroImage ?pm = Some h \<longrightarrow> hero_url h \<noteq> [] \<and> hero_alt h \<noteq> [])"
    by blast
  then have "Some [\<lparr>stat_label = ''developers'', stat_value = ''50k''\<rparr>] \<noteq> Some []
        \<and> hero_url \<lparr>hero_url = ''shot.png'', hero_alt = ''Hero image''\<rparr> \<noteq> []
        \<and> hero_alt \<lparr>hero_url = ''shot.png'', hero_alt = ''Hero image''\<rparr> \<noteq> []"
    by simp
  with run show ?thesis
    by (rule_tac conjI)
qed

section \<open>Exceptions\<close>

text \<open>
  The only call of the URL constructor is guarded by an empty label, and the links that
  \<open>extractLinks\<close> collects have non-empty labels: \<open>extractSecondaryLinks\<close> never reaches it
  and never throws.
\<close>

lemma linksVisitor_labels:
  "\<forall>l \<in> set links. label l \<noteq> [] \<Longrightarrow> \<forall>l \<in> set (linksVisitor links n). label l \<noteq> []"
  by (auto simp: linksVisitor_def Let_def split: node.splits)

lemma extractLinks_fold_labels:
  "\<forall>l \<in> set links. label l \<noteq> [] \<Longrightarrow> \<forall>l \<in> set (foldl linksVisitor links ns). label l \<noteq> []"
proof (induction ns arbitrary: links)
  case Nil
  then show ?case by simp
next
  case (Cons n ns)
  from Cons.IH [OF linksVisitor_labels [OF Cons.prems]] show ?case
    by simp
qed

lemma extractLinks_labels: "\<forall>l \<in> set (extractLinks ast). label l \<noteq> []"
  unfolding extractLinks_def by (rule extractLinks_fold_labels) simp

lemma mapE_labels:
  "\<forall>l \<in> set xs. label l \<noteq> [] \<Longrightarrow>
   mapE (\<lambda>l. case secondaryLabel hostname l of Inl e \<Rightarrow> Inl e
              | Inr lbl \<Rightarrow> Inr \<lparr>label = lbl, href = href l\<rparr>) xs = Inr xs"
  by (induction xs) (auto simp: secondaryLabel_def)

lemma secondary_no_url:
  assumes "\<forall>l \<in> set links. label l \<noteq> []"
  shows "extractSecondaryLinks hostname links cta = Inr (selectSecondary links cta)"
proof -
  from assms selectSecondary_subset [of links cta]
  have "\<forall>l \<in> set (selectSecondary links cta). label l \<noteq> []"
    by auto
  then show ?thesis
    unfolding extractSecondaryLinks_def by (rule mapE_labels)
qed

lemma parseReadme_fails_iff:
  "parseReadme hostname ast = Inl e \<longleftrightarrow>
   extractCTA (extractLinks ast) (extractSections ast) = Inl e"
  unfolding parseReadme_def Let_def
  by (auto simp: secondary_no_url [OF extractLinks_labels] split: sum.splits)

lemma extractCTA_strings:
  assumes "\<forall>s \<in> set sections. sec_title s \<noteq> JObject"
  shows "\<exists>cta. extractCTA links sections = Inr cta"
proof -
  from assms have pure: "\<forall>x \<in> set sections. \<exists>b. isInstallSection x = Inr b"
    by (simp add: isInstallSection_string)
  show ?thesis
    unfolding extractCTA_def someE_pure [OF pure] findE_pure [OF pure]
    by (auto split: option.splits)
qed

lemma parseReadme_returns:
  assumes "\<forall>s \<in> set (extractSections ast). sec_title s \<noteq> JObject"
  shows "\<exists>pm. parseReadme hostname ast = Inr pm"
proof (cases "parseReadme hostname ast")
  case (Inl e)
  then have "extractCTA (extractLinks ast) (extractSections ast) = Inl e"
    by (simp add: parseReadme_fails_iff)
  with extractCTA_strings [OF assms, of "extractLinks ast"] show ?thesis
    by auto
next
  case (Inr pm)
  then show ?thesis by blast
qed

text \<open>
  C9. The claim holds for the URL constructor and the labels (the lemmas above), and
  \<open>parseReadme\<close> returns a record whenever every section title is a string. It fails for a
  heading whose text is \<open>Constructor\<close>: the lookup \<open>sectionMap[headingTextLower]\<close> finds the
  inherited property \<open>constructor\<close> of the object literal, the title of the section becomes
  the function \<open>Object\<close>, and \<open>s.title.toLowerCase()\<close> in \<open>extractCTA\<close> throws a
  \<open>TypeError\<close>: no result record is produced.
\<close>

theorem constructor_heading_throws:
  "parseReadme hostname
     (Root [Heading 2 [Text ''Constructor''], Paragraph [Text ''Creates a client.'']])
   = Inl TypeError"
  by code_simp

end
